theory Spec2Isabelle
  imports Complex_Main "HOL-Library.Sublist"
begin

section \<open>GitHub monitoring: token pool, search, scan and ingest\<close>

text \<open>
  A shallow embedding of the Go packages \<^verbatim>\<open>github\<close> (token pool and search service) and
  \<^verbatim>\<open>monitor\<close> (scan loop and persistence of results).

  Conventions of the embedding:
  \<^item> an instant (\<^verbatim>\<open>time.Time\<close>) is an \<open>int\<close>: nanoseconds since Go's zero time, so
    \<^verbatim>\<open>t.IsZero()\<close> is \<open>t = 0\<close>, \<^verbatim>\<open>a.Before(b)\<close> is \<open>a < b\<close> and \<^verbatim>\<open>a.After(b)\<close> is \<open>a > b\<close>;
  \<^item> everything outside the process is an oracle of a \<open>world\<close>: the clock, the quota endpoint
    and the code search endpoint. One world describes the outside during one call of
    \<^verbatim>\<open>SearchCode\<close> (hence of \<^verbatim>\<open>GetClient\<close>); successive calls may see different worlds.
    Within one call every reading of the clock gives the same instant \<open>now\<close>, and the
    quota endpoint is asked at most once for each token, so its answers are a function of
    the index of the token;
  \<^item> every request to the outside and every sleep is appended to a trace of events, so that
    what the code asks of the network is part of its result;
  \<^item> a Go \<^verbatim>\<open>error\<close> is a value of \<open>go_error\<close>; \<open>Error\<close> renders its message;
  \<^item> a run-time panic is the outcome \<open>Panic\<close>.
\<close>

subsection \<open>Errors, events, outcomes\<close>

datatype go_error =
    AllRateLimited int          \<comment> \<open>\<^verbatim>\<open>fmt.Errorf("all tokens rate limited, next reset at %v", nextReset)\<close>\<close>
  | NoAvailableTokens           \<comment> \<open>\<^verbatim>\<open>fmt.Errorf("no available tokens")\<close>\<close>
  | Upstream string             \<comment> \<open>an error of the go-github client or of encoding/json, with its message\<close>
  | Wrapped string go_error     \<comment> \<open>\<^verbatim>\<open>fmt.Errorf("<prefix>: %w", err)\<close>\<close>
  | WrappedNil string           \<comment> \<open>\<^verbatim>\<open>fmt.Errorf("<prefix>: %w", nil)\<close>\<close>

text \<open>\<^verbatim>\<open>err.Error()\<close>; the first argument is the \<^verbatim>\<open>%v\<close> formatting of an instant.\<close>

fun Error :: "(int \<Rightarrow> string) \<Rightarrow> go_error \<Rightarrow> string" where
  "Error fmt_time (AllRateLimited t) = ''all tokens rate limited, next reset at '' @ fmt_time t"
| "Error fmt_time NoAvailableTokens = ''no available tokens''"
| "Error fmt_time (Upstream m) = m"
| "Error fmt_time (Wrapped p e) = p @ '': '' @ Error fmt_time e"
| "Error fmt_time (WrappedNil p) = p @ '': %!w(<nil>)''"

datatype event =
    RateLimitGet nat            \<comment> \<open>\<^verbatim>\<open>Client.RateLimit.Get\<close> with the client of the token at this index\<close>
  | ExecQuery string            \<comment> \<open>\<^verbatim>\<open>SearchCode\<close> entered, with the query it built\<close>
  | SearchCodeCall nat nat      \<comment> \<open>\<^verbatim>\<open>client.Search.Code\<close>: token index, page\<close>
  | Sleep nat                   \<comment> \<open>\<^verbatim>\<open>time.Sleep\<close>, in seconds\<close>

datatype 'a outcome = Ok 'a | Err go_error | Panic

subsection \<open>The token pool\<close>

text \<open>\<^verbatim>\<open>github.Rate\<close> of go-github: the core rate limit of one token.\<close>

record Rate =
  Limit :: int
  Remaining :: int
  Reset :: int

text \<open>
  \<^verbatim>\<open>TokenInfo\<close>. The \<^verbatim>\<open>Client\<close> field is built from \<open>Token\<close> once and never changes; a
  client is identified by the index of its token in the pool.
\<close>

record TokenInfo =
  Token :: string
  RateLimit :: "Rate option"
  IsAvailable :: bool
  LastChecked :: int

record TokenPool =
  tokens :: "TokenInfo list"
  currentIndex :: nat

text \<open>What \<^verbatim>\<open>Client.RateLimit.Get\<close> answers: an error, a reply without a core part, or a core rate.\<close>

datatype rate_response = RateErr string | RateNoCore | RateCore Rate

subsection \<open>The code search endpoint\<close>

text \<open>
  \<^verbatim>\<open>github.CodeResult\<close> and \<^verbatim>\<open>github.Repository\<close> of go-github, as far as the code reads
  them. It reads them through their getters (a nil string pointer reads as the empty
  string), and the fields carry the getters' names; \<open>TextMatches\<close> holds the
  \<^verbatim>\<open>GetFragment()\<close> of each text match. The code reads nothing else of a hit, and
  \<^verbatim>\<open>github.CodeResult\<close> has no field for a relevance score.
\<close>

record Repository =
  GetFullName :: string
  RepoGetHTMLURL :: string

record CodeResult =
  GetName :: string
  GetPath :: string
  GetHTMLURL :: string
  Repository :: "Repository option"
  TextMatches :: "string list"

text \<open>
  What \<^verbatim>\<open>client.Search.Code\<close> answers to a query and a page number (the page size, the
  sort key and the order are the same in every request): an error with the HTTP status of
  the response (when there is a response), or a page of results (an entry may be a nil
  pointer) with the total count.
\<close>

datatype search_response =
    SearchErr "nat option" string
  | SearchOk "CodeResult option list" int

record world =
  now :: int
  rate_get :: "nat \<Rightarrow> rate_response"
  search_code :: "nat \<Rightarrow> string \<Rightarrow> nat \<Rightarrow> search_response"

subsection \<open>\<^verbatim>\<open>NewTokenPool\<close>\<close>

definition NewTokenPool :: "int \<Rightarrow> string list \<Rightarrow> go_error + TokenPool" where
  "NewTokenPool t0 toks =
     (if length toks = 0 then Inl (Upstream ''no tokens provided'')
      else
        let infos = map (\<lambda>tok. \<lparr>Token = tok, RateLimit = None, IsAvailable = True, LastChecked = t0\<rparr>)
                      (filter (\<lambda>tok. tok \<noteq> '''') toks)
        in if length infos = 0 then Inl (Upstream ''no valid tokens provided'')
           else Inr \<lparr>tokens = infos, currentIndex = 0\<rparr>)"

subsection \<open>\<^verbatim>\<open>UpdateRateLimit\<close>, \<^verbatim>\<open>HasRemainingCalls\<close>\<close>

text \<open>
  \<^verbatim>\<open>UpdateRateLimit\<close> asks the quota endpoint (the caller records the request in the trace) and
  returns the token as updated, with the error if there is one.
\<close>

definition UpdateRateLimit :: "rate_response \<Rightarrow> int \<Rightarrow> TokenInfo \<Rightarrow> TokenInfo \<times> string option" where
  "UpdateRateLimit resp t_now t =
     (case resp of
        RateErr e \<Rightarrow> (t, Some e)
      | RateNoCore \<Rightarrow> (t, None)
      | RateCore r \<Rightarrow>
          (let t1 = t\<lparr>RateLimit := Some r, LastChecked := t_now\<rparr>
           in (if Remaining r > 10 then t1\<lparr>IsAvailable := True\<rparr> else t1, None)))"

definition HasRemainingCalls :: "int \<Rightarrow> int \<Rightarrow> TokenInfo \<Rightarrow> bool" where
  "HasRemainingCalls t_now threshold t =
     (case RateLimit t of
        None \<Rightarrow> True
      | Some r \<Rightarrow> if t_now > Reset r then True else Remaining r > threshold)"

subsection \<open>\<^verbatim>\<open>markTokenUnavailable\<close>, \<^verbatim>\<open>nextToken\<close>, \<^verbatim>\<open>getNextResetTime\<close>\<close>

definition markTokenUnavailable :: "TokenPool \<Rightarrow> nat \<Rightarrow> TokenPool" where
  "markTokenUnavailable p index =
     (if index < length (tokens p)
      then p\<lparr>tokens := (tokens p)[index := (tokens p ! index)\<lparr>IsAvailable := False\<rparr>]\<rparr>
      else p)"

text \<open>
  \<^verbatim>\<open>nextToken\<close> divides by the length of the pool; \<^verbatim>\<open>GetClient\<close> calls it only inside its
  loop, where the length exceeds the number of attempts, so the length is not zero there.
\<close>

definition nextToken :: "TokenPool \<Rightarrow> TokenPool" where
  "nextToken p = p\<lparr>currentIndex := (currentIndex p + 1) mod length (tokens p)\<rparr>"

text \<open>The body of the loop of \<^verbatim>\<open>getNextResetTime\<close>: a token without a snapshot is passed over.\<close>

definition reset_step :: "int \<Rightarrow> TokenInfo \<Rightarrow> int" where
  "reset_step nextReset tokenInfo =
     (case RateLimit tokenInfo of
        None \<Rightarrow> nextReset
      | Some r \<Rightarrow> if nextReset = 0 \<or> Reset r < nextReset then Reset r else nextReset)"

definition getNextResetTime :: "TokenPool \<Rightarrow> int" where
  "getNextResetTime p = foldl reset_step 0 (tokens p)"

text \<open>
  \<^verbatim>\<open>time.Until(t)\<close> is \<^verbatim>\<open>t.Sub(time.Now())\<close>, a \<^verbatim>\<open>Duration\<close> (signed 64-bit nanoseconds)
  that saturates at its bounds.
\<close>

definition time_Until :: "int \<Rightarrow> int \<Rightarrow> int" where
  "time_Until t_now t = max (- (2 ^ 63)) (min (2 ^ 63 - 1) (t - t_now))"

definition Minute :: int where
  "Minute = 60 * 1000000000"

subsection \<open>\<^verbatim>\<open>GetClient\<close>\<close>

text \<open>
  The check at the end of the loop body of \<^verbatim>\<open>GetClient\<close>, after the pointer has advanced
  and the attempt has been counted: once the cycle is complete and the earliest reset time
  is known and less than five minutes away, the call fails with that time.
\<close>

definition cycle_check :: "world \<Rightarrow> nat \<Rightarrow> nat \<Rightarrow> nat \<Rightarrow> TokenPool \<Rightarrow> go_error option" where
  "cycle_check w startIndex maxAttempts attempts p =
     (if currentIndex p = startIndex \<and> attempts = maxAttempts
      then (let nextReset = getNextResetTime p
            in if nextReset \<noteq> 0 \<and> time_Until (now w) nextReset < 5 * Minute
               then Some (AllRateLimited nextReset) else None)
      else None)"

text \<open>
  The loop of \<^verbatim>\<open>GetClient\<close>. The tokens are held by pointer, so what \<^verbatim>\<open>UpdateRateLimit\<close>
  changes is written back into the pool. Its error path advances and counts the attempt and
  then \<^verbatim>\<open>continue\<close>s, so it does not reach the check at the end of the body. Reading
  \<^verbatim>\<open>p.tokens[p.currentIndex]\<close> out of range panics. So does the success path when the
  token holds no snapshot (none was stored and the reply had no core part): the arguments
  of its \<^verbatim>\<open>log.Printf\<close> read \<^verbatim>\<open>tokenInfo.RateLimit.Remaining\<close> through the nil pointer.
\<close>

function GetClient_loop ::
  "world \<Rightarrow> nat \<Rightarrow> nat \<Rightarrow> nat \<Rightarrow> TokenPool \<Rightarrow> event list \<Rightarrow> TokenPool \<times> event list \<times> nat outcome"
where
  "GetClient_loop w startIndex maxAttempts attempts p tr =
     (if attempts < maxAttempts then
        (if currentIndex p < length (tokens p) then
           (if IsAvailable (tokens p ! currentIndex p) then
              (case UpdateRateLimit (rate_get w (currentIndex p)) (now w) (tokens p ! currentIndex p) of
                 (t', Some e) \<Rightarrow>
                   GetClient_loop w startIndex maxAttempts (attempts + 1)
                     (nextToken (markTokenUnavailable
                        (p\<lparr>tokens := (tokens p)[currentIndex p := t']\<rparr>) (currentIndex p)))
                     (tr @ [RateLimitGet (currentIndex p)])
               | (t', None) \<Rightarrow>
                   (if HasRemainingCalls (now w) 10 t'
                    then (p\<lparr>tokens := (tokens p)[currentIndex p := t']\<rparr>,
                          tr @ [RateLimitGet (currentIndex p)],
                          (case RateLimit t' of None \<Rightarrow> Panic | Some rate \<Rightarrow> Ok (currentIndex p)))
                    else
                      (case cycle_check w startIndex maxAttempts (attempts + 1)
                              (nextToken (markTokenUnavailable
                                 (p\<lparr>tokens := (tokens p)[currentIndex p := t']\<rparr>) (currentIndex p))) of
                         Some err \<Rightarrow>
                           (nextToken (markTokenUnavailable
                              (p\<lparr>tokens := (tokens p)[currentIndex p := t']\<rparr>) (currentIndex p)),
                            tr @ [RateLimitGet (currentIndex p)], Err err)
                       | None \<Rightarrow>
                           GetClient_loop w startIndex maxAttempts (attempts + 1)
                             (nextToken (markTokenUnavailable
                                (p\<lparr>tokens := (tokens p)[currentIndex p := t']\<rparr>) (currentIndex p)))
                             (tr @ [RateLimitGet (currentIndex p)]))))
            else
              (case cycle_check w startIndex maxAttempts (attempts + 1) (nextToken p) of
                 Some err \<Rightarrow> (nextToken p, tr, Err err)
               | None \<Rightarrow> GetClient_loop w startIndex maxAttempts (attempts + 1) (nextToken p) tr))
         else (p, tr, Panic))
      else (p, tr, Err NoAvailableTokens))"
  by pat_completeness auto
termination
  by (relation "measure (\<lambda>(w, startIndex, maxAttempts, attempts, p, tr). maxAttempts - attempts)") auto

declare GetClient_loop.simps [simp del]

definition GetClient :: "world \<Rightarrow> TokenPool \<Rightarrow> TokenPool \<times> event list \<times> nat outcome" where
  "GetClient w p = GetClient_loop w (currentIndex p) (length (tokens p)) 0 p []"

text \<open>Consecutive calls of \<^verbatim>\<open>GetClient\<close>, one world for each, with the result of each call.\<close>

primrec GetClient_times :: "world list \<Rightarrow> TokenPool \<Rightarrow> TokenPool \<times> nat outcome list" where
  "GetClient_times [] p = (p, [])"
| "GetClient_times (w # ws) p =
     (case GetClient w p of (p1, tr, r) \<Rightarrow>
        (case GetClient_times ws p1 of (p2, rs) \<Rightarrow> (p2, r # rs)))"

subsection \<open>The search service\<close>

record SearchOptions =
  Keywords :: "string list"
  MatchType :: string
  ExcludeExts :: "string list"
  Language :: string
  Sort :: string
  Order :: string

record SearchResultItem =
  RepoFullName :: string
  RepoURL :: string
  FilePath :: string
  FileURL :: string
  HTMLURL :: string
  MatchedKeywords :: "string list"
  ContentSnippet :: string
  Score :: real
  CreatedAt :: int

text \<open>\<^verbatim>\<open>strings.Join\<close>, \<^verbatim>\<open>strings.TrimPrefix\<close>, \<^verbatim>\<open>strings.Contains\<close>.\<close>

fun strings_Join :: "string list \<Rightarrow> string \<Rightarrow> string" where
  "strings_Join [] sep = []"
| "strings_Join [x] sep = x"
| "strings_Join (x # y # ys) sep = x @ sep @ strings_Join (y # ys) sep"

definition strings_TrimPrefix :: "string \<Rightarrow> string \<Rightarrow> string" where
  "strings_TrimPrefix s pre = (if prefix pre s then drop (length pre) s else s)"

definition strings_Contains :: "string \<Rightarrow> string \<Rightarrow> bool" where
  "strings_Contains s substr = sublist substr s"

text \<open>
  \<^verbatim>\<open>strings.ToLower\<close> on ASCII letters; a byte outside \<open>A\<close> to \<open>Z\<close> is left as it is
  (Go also maps the upper case letters beyond ASCII).
\<close>

definition strings_ToLower :: "string \<Rightarrow> string" where
  "strings_ToLower s =
     map (\<lambda>c. if (65::nat) \<le> of_char c \<and> of_char c \<le> (90::nat)
               then char_of (of_char c + (32::nat)) else c) s"

definition buildQuery :: "SearchOptions \<Rightarrow> string" where
  "buildQuery opts =
     (let queryParts =
            (if MatchType opts = ''precise''
             then map (\<lambda>keyword. [CHR 0x22] @ keyword @ [CHR 0x22])
                    (filter (\<lambda>keyword. keyword \<noteq> []) (Keywords opts))
             else filter (\<lambda>keyword. keyword \<noteq> []) (Keywords opts));
          query = strings_Join queryParts '' '';
          query1 = foldl (\<lambda>q ext. if ext \<noteq> [] then q @ '' -extension:'' @ strings_TrimPrefix ext ''.''
                                    else q)
                     query (ExcludeExts opts)
      in if Language opts \<noteq> [] then query1 @ '' language:'' @ Language opts else query1)"

definition findMatchedKeywords :: "CodeResult \<Rightarrow> string list \<Rightarrow> string list" where
  "findMatchedKeywords result keywords =
     (let content = foldl (\<lambda>c fragment. c @ '' '' @ strings_ToLower fragment)
                      (strings_ToLower (GetName result @ '' '' @ GetPath result))
                      (TextMatches result)
      in filter (\<lambda>keyword. keyword \<noteq> [] \<and> strings_Contains content (strings_ToLower keyword))
           keywords)"

definition extractSnippet :: "CodeResult \<Rightarrow> string" where
  "extractSnippet result =
     (case TextMatches result of
        [] \<Rightarrow> []
      | snippet # _ \<Rightarrow> if length snippet > 500 then take 500 snippet @ ''...'' else snippet)"

text \<open>
  \<^verbatim>\<open>convertToSearchResultItem\<close>: its argument is a \<^verbatim>\<open>*github.CodeResult\<close>, and \<open>None\<close> is the
  nil pointer.
\<close>

definition convertToSearchResultItem ::
  "CodeResult option \<Rightarrow> string list \<Rightarrow> int \<Rightarrow> SearchResultItem option" where
  "convertToSearchResultItem result keywords t_now =
     (case result of
        None \<Rightarrow> None
      | Some res \<Rightarrow>
          (case Repository res of
             None \<Rightarrow> None
           | Some repo \<Rightarrow>
               Some \<lparr>RepoFullName = GetFullName repo,
                     RepoURL = RepoGetHTMLURL repo,
                     FilePath = GetPath res,
                     FileURL = GetHTMLURL res,
                     HTMLURL = GetHTMLURL res,
                     MatchedKeywords = findMatchedKeywords res keywords,
                     ContentSnippet = extractSnippet res,
                     Score = 1.0,
                     CreatedAt = t_now\<rparr>))"

text \<open>
  The page loop of \<^verbatim>\<open>SearchCode\<close>, with the client obtained before the loop. It stops at
  page 10 or at an empty page, and sleeps 2 seconds before the next page.
\<close>

function SearchCode_loop ::
  "world \<Rightarrow> nat \<Rightarrow> string \<Rightarrow> string list \<Rightarrow> nat \<Rightarrow> SearchResultItem list \<Rightarrow> event list
     \<Rightarrow> event list \<times> SearchResultItem list outcome"
where
  "SearchCode_loop w client query keywords page results tr =
     (case search_code w client query page of
        SearchErr status msg \<Rightarrow>
          (tr @ [SearchCodeCall client page],
           Err (if status = Some 403 then Wrapped ''rate limit exceeded'' (Upstream msg)
                else Wrapped ''search failed'' (Upstream msg)))
      | SearchOk codeResults totalCount \<Rightarrow>
          (if page \<ge> 10 \<or> length codeResults = 0
           then (tr @ [SearchCodeCall client page],
                 Ok (results @ List.map_filter (\<lambda>r. convertToSearchResultItem r keywords (now w)) codeResults))
           else SearchCode_loop w client query keywords (page + 1)
                  (results @ List.map_filter (\<lambda>r. convertToSearchResultItem r keywords (now w)) codeResults)
                  (tr @ [SearchCodeCall client page, Sleep 2])))"
  by pat_completeness auto
termination
  by (relation "measure (\<lambda>(w, client, query, keywords, page, results, tr). 10 - page)") auto

declare SearchCode_loop.simps [simp del]

definition SearchCode ::
  "world \<Rightarrow> SearchOptions \<Rightarrow> TokenPool \<Rightarrow> TokenPool \<times> event list \<times> SearchResultItem list outcome" where
  "SearchCode w opts p =
     (let query = buildQuery opts
      in case GetClient w p of
           (p1, tr, Err err) \<Rightarrow> (p1, ExecQuery query # tr, Err (Wrapped ''failed to get client'' err))
         | (p1, tr, Panic) \<Rightarrow> (p1, ExecQuery query # tr, Panic)
         | (p1, tr, Ok client) \<Rightarrow>
             (case SearchCode_loop w client query (Keywords opts) 1 [] (ExecQuery query # tr) of
                (tr1, r) \<Rightarrow> (p1, tr1, r)))"

text \<open>
  \<^verbatim>\<open>SearchWithRetry\<close>: attempt \<open>i\<close> (counted from 0) runs in the world \<open>ws i\<close>. After a
  failure whose message contains \<^verbatim>\<open>rate limit\<close> it sleeps \<open>(i + 1) * 10\<close> seconds (the
  \<^verbatim>\<open>Duration\<close> would overflow only after some \<open>9 * 10^8\<close> attempts) and goes on with the
  next attempt.
\<close>

function SearchWithRetry_loop ::
  "(int \<Rightarrow> string) \<Rightarrow> (nat \<Rightarrow> world) \<Rightarrow> SearchOptions \<Rightarrow> int \<Rightarrow> nat \<Rightarrow> go_error option
     \<Rightarrow> TokenPool \<Rightarrow> event list \<Rightarrow> TokenPool \<times> event list \<times> SearchResultItem list outcome"
where
  "SearchWithRetry_loop fmt_time ws opts maxRetries i lastErr p tr =
     (if int i < maxRetries then
        (case SearchCode (ws i) opts p of
           (p1, tr1, Ok results) \<Rightarrow> (p1, tr @ tr1, Ok results)
         | (p1, tr1, Panic) \<Rightarrow> (p1, tr @ tr1, Panic)
         | (p1, tr1, Err err) \<Rightarrow>
             (if strings_Contains (Error fmt_time err) ''rate limit''
              then SearchWithRetry_loop fmt_time ws opts maxRetries (i + 1) (Some err) p1
                     (tr @ tr1 @ [Sleep ((i + 1) * 10)])
              else (p1, tr @ tr1, Err err)))
      else (p, tr,
            Err (case lastErr of
                   None \<Rightarrow> WrappedNil ''max retries exceeded''
                 | Some err \<Rightarrow> Wrapped ''max retries exceeded'' err)))"
  by pat_completeness auto
termination
  by (relation "measure (\<lambda>(fmt_time, ws, opts, maxRetries, i, lastErr, p, tr). nat (maxRetries - int i))") auto

declare SearchWithRetry_loop.simps [simp del]

definition SearchWithRetry ::
  "(int \<Rightarrow> string) \<Rightarrow> (nat \<Rightarrow> world) \<Rightarrow> SearchOptions \<Rightarrow> int \<Rightarrow> TokenPool
     \<Rightarrow> TokenPool \<times> event list \<times> SearchResultItem list outcome" where
  "SearchWithRetry fmt_time ws opts maxRetries p =
     SearchWithRetry_loop fmt_time ws opts maxRetries 0 None p []"

text \<open>\<^verbatim>\<open>ParseKeywords\<close>, \<^verbatim>\<open>ParseExcludeExts\<close>; the argument \<open>unmarshal\<close> is \<^verbatim>\<open>json.Unmarshal\<close> into a slice of strings.\<close>

definition ParseKeywords :: "(string \<Rightarrow> string + string list) \<Rightarrow> string \<Rightarrow> go_error + string list" where
  "ParseKeywords unmarshal keywordsJSON =
     (case unmarshal keywordsJSON of Inl e \<Rightarrow> Inl (Upstream e) | Inr keywords \<Rightarrow> Inr keywords)"

definition ParseExcludeExts :: "(string \<Rightarrow> string + string list) \<Rightarrow> string \<Rightarrow> go_error + string list" where
  "ParseExcludeExts unmarshal extsJSON =
     (if extsJSON = [] then Inr []
      else case unmarshal extsJSON of Inl e \<Rightarrow> Inl (Upstream e) | Inr exts \<Rightarrow> Inr exts)"

subsection \<open>The store\<close>

text \<open>
  The rows of the tables that the monitor reads and writes, with the fields the code sets
  (the key, the time stamps and the soft-deletion mark are GORM's; a table holds the rows
  that a query sees).
\<close>

record MonitorRule =
  rule_ID :: nat
  rule_Name :: string
  rule_Keywords :: string
  rule_MatchType :: string
  rule_IsActive :: bool
  rule_ExcludeExts :: string

record SearchResult =
  res_RuleID :: nat
  res_RepoFullName :: string
  res_RepoURL :: string
  res_FilePath :: string
  res_FileURL :: string
  res_MatchedKeywords :: string
  res_ContentSnippet :: string
  res_HTMLURL :: string
  res_Score :: real
  res_Status :: string

record Whitelist =
  wl_Type :: string
  wl_Value :: string

record ScanHistory =
  hist_RuleID :: nat
  hist_ResultsCount :: int
  hist_NewResults :: int
  hist_TokenUsed :: string
  hist_Status :: string
  hist_ErrorMessage :: string
  hist_Duration :: int

text \<open>
  The database: its tables; \<open>faults\<close>, which says of each coming operation whether it
  fails (\<open>True\<close>), and once the list is used up, operations succeed; and \<open>collation\<close>,
  the equality of strings in the conditions of its queries. The comparison of a
  \<^verbatim>\<open>varchar\<close> column with a string is made by MySQL under the collation of the column,
  which the tables take from the database; \<^verbatim>\<open>InitDB\<close> creates the database, when there is
  none, with the collation \<^verbatim>\<open>utf8mb4_unicode_ci\<close>, under which strings that differ in the
  case of their letters are equal. An operation that the database refuses (such as the
  insertion of a value that is longer than its column, under the strict mode that MySQL
  has by default) is a fault.
\<close>

record store =
  monitor_rules :: "MonitorRule list"
  search_results :: "SearchResult list"
  whitelists :: "Whitelist list"
  scan_histories :: "ScanHistory list"
  faults :: "bool list"
  collation :: "string \<Rightarrow> string \<Rightarrow> bool"

text \<open>One operation on the database: whether it succeeds, and the store with that fault consumed.\<close>

definition db_call :: "store \<Rightarrow> bool \<times> store" where
  "db_call st = (case faults st of [] \<Rightarrow> (True, st) | f # fs \<Rightarrow> (\<not> f, st\<lparr>faults := fs\<rparr>))"

subsection \<open>The monitor service\<close>

definition splitRepoName :: "string \<Rightarrow> string list" where
  "splitRepoName fullName =
     (if CHR ''/'' \<in> set fullName
      then [takeWhile (\<lambda>c. c \<noteq> CHR ''/'') fullName, tl (dropWhile (\<lambda>c. c \<noteq> CHR ''/'') fullName)]
      else [])"

text \<open>The inner loop of \<^verbatim>\<open>filterWhitelist\<close>: the first entry that matches ends it.\<close>

fun isWhitelisted :: "Whitelist list \<Rightarrow> SearchResultItem \<Rightarrow> bool" where
  "isWhitelisted [] result = False"
| "isWhitelisted (entry # entries) result =
     (if wl_Type entry = ''repo'' \<and> RepoFullName result = wl_Value entry then True
      else if wl_Type entry = ''user'' \<and> length (RepoFullName result) > 0
              \<and> length (splitRepoName (RepoFullName result)) > 0
              \<and> splitRepoName (RepoFullName result) ! 0 = wl_Value entry then True
      else isWhitelisted entries result)"

definition filterWhitelist :: "SearchResultItem list \<Rightarrow> store \<Rightarrow> SearchResultItem list \<times> store" where
  "filterWhitelist results st =
     (case db_call st of
        (ok, st1) \<Rightarrow>
          if \<not> ok then (results, st1)
          else if length (whitelists st1) = 0 then (results, st1)
          else (filter (\<lambda>result. \<not> isWhitelisted (whitelists st1) result) results, st1))"

text \<open>
  \<^verbatim>\<open>saveResults\<close>. The lookup is the query
  \<^verbatim>\<open>rule_id = ? AND repo_full_name = ? AND file_path = ?\<close>, whose two comparisons of strings
  the database makes under its collation; \<open>same_key\<close> is that condition on a row. The
  lookup fails when no row matches or when the database fails; in both cases the code goes
  on to insert. \<open>marshal\<close> is \<^verbatim>\<open>json.Marshal\<close> of the matched keywords.
\<close>

definition same_key ::
  "(string \<Rightarrow> string \<Rightarrow> bool) \<Rightarrow> nat \<Rightarrow> SearchResultItem \<Rightarrow> SearchResult \<Rightarrow> bool" where
  "same_key eq ruleID result row \<longleftrightarrow>
     res_RuleID row = ruleID \<and> eq (res_RepoFullName row) (RepoFullName result)
     \<and> eq (res_FilePath row) (FilePath result)"

definition newResult :: "(string list \<Rightarrow> string) \<Rightarrow> nat \<Rightarrow> SearchResultItem \<Rightarrow> SearchResult" where
  "newResult marshal ruleID result =
     \<lparr>res_RuleID = ruleID,
      res_RepoFullName = RepoFullName result,
      res_RepoURL = RepoURL result,
      res_FilePath = FilePath result,
      res_FileURL = FileURL result,
      res_MatchedKeywords = marshal (MatchedKeywords result),
      res_ContentSnippet = ContentSnippet result,
      res_HTMLURL = HTMLURL result,
      res_Score = Score result,
      res_Status = ''pending''\<rparr>"

fun saveResults_loop ::
  "(string list \<Rightarrow> string) \<Rightarrow> nat \<Rightarrow> SearchResultItem list \<Rightarrow> nat \<Rightarrow> store \<Rightarrow> nat \<times> store" where
  "saveResults_loop marshal ruleID [] newCount st = (newCount, st)"
| "saveResults_loop marshal ruleID (result # results) newCount st =
     (case db_call st of
        (found_ok, st1) \<Rightarrow>
          if found_ok \<and> list_ex (same_key (collation st1) ruleID result) (search_results st1)
          then saveResults_loop marshal ruleID results newCount st1
          else (case db_call st1 of
                  (create_ok, st2) \<Rightarrow>
                    if create_ok
                    then saveResults_loop marshal ruleID results (newCount + 1)
                           (st2\<lparr>search_results := search_results st2 @ [newResult marshal ruleID result]\<rparr>)
                    else saveResults_loop marshal ruleID results newCount st2))"

definition saveResults ::
  "(string list \<Rightarrow> string) \<Rightarrow> nat \<Rightarrow> SearchResultItem list \<Rightarrow> store \<Rightarrow> nat \<times> store" where
  "saveResults marshal ruleID results st = saveResults_loop marshal ruleID results 0 st"

definition recordScanHistory ::
  "nat \<Rightarrow> int \<Rightarrow> int \<Rightarrow> string \<Rightarrow> string \<Rightarrow> string \<Rightarrow> int \<Rightarrow> store \<Rightarrow> store" where
  "recordScanHistory ruleID resultsCount newResults tokenUsed status errorMsg duration st =
     (case db_call st of
        (ok, st1) \<Rightarrow>
          if ok
          then st1\<lparr>scan_histories := scan_histories st1 @
                 [\<lparr>hist_RuleID = ruleID, hist_ResultsCount = resultsCount, hist_NewResults = newResults,
                   hist_TokenUsed = tokenUsed, hist_Status = status, hist_ErrorMessage = errorMsg,
                   hist_Duration = duration\<rparr>]\<rparr>
          else st1)"

text \<open>
  What one call of \<^verbatim>\<open>scanRule\<close> takes from outside: the formatting of instants, the JSON
  codec, the world of each search attempt, and the seconds that the clock shows to have
  passed when the rule is done.
\<close>

record env =
  env_fmt_time :: "int \<Rightarrow> string"
  env_unmarshal :: "string \<Rightarrow> string + string list"
  env_marshal :: "string list \<Rightarrow> string"
  env_worlds :: "nat \<Rightarrow> world"
  env_duration :: int

record system =
  sys_pool :: TokenPool
  sys_db :: store
  sys_events :: "event list"

text \<open>\<^verbatim>\<open>scanRule\<close>; \<open>None\<close> when the search panics.\<close>

definition scanRule :: "env \<Rightarrow> MonitorRule \<Rightarrow> system \<Rightarrow> system option" where
  "scanRule e rule s =
     (case ParseKeywords (env_unmarshal e) (rule_Keywords rule) of
        Inl err \<Rightarrow>
          Some (s\<lparr>sys_db := recordScanHistory (rule_ID rule) 0 0 [] ''failed''
                               (Error (env_fmt_time e) err) 0 (sys_db s)\<rparr>)
      | Inr keywords \<Rightarrow>
          (let excludeExts =
                 (case ParseExcludeExts (env_unmarshal e) (rule_ExcludeExts rule) of
                    Inl err \<Rightarrow> []
                  | Inr exts \<Rightarrow> exts);
               searchOpts = \<lparr>Keywords = keywords, MatchType = rule_MatchType rule,
                             ExcludeExts = excludeExts, Language = [],
                             Sort = ''indexed'', Order = ''desc''\<rparr>
           in case SearchWithRetry (env_fmt_time e) (env_worlds e) searchOpts 3 (sys_pool s) of
                (p1, tr, Panic) \<Rightarrow> None
              | (p1, tr, Err err) \<Rightarrow>
                  (let status = (if Error (env_fmt_time e) err = ''rate limit exceeded''
                                 then ''rate_limited'' else ''failed'')
                   in Some \<lparr>sys_pool = p1,
                            sys_db = recordScanHistory (rule_ID rule) 0 0 [] status
                                       (Error (env_fmt_time e) err) (env_duration e) (sys_db s),
                            sys_events = sys_events s @ tr\<rparr>)
              | (p1, tr, Ok results) \<Rightarrow>
                  (case filterWhitelist results (sys_db s) of
                     (filteredResults, st1) \<Rightarrow>
                       (case saveResults (env_marshal e) (rule_ID rule) filteredResults st1 of
                          (newResultsCount, st2) \<Rightarrow>
                            Some \<lparr>sys_pool = p1,
                                  sys_db = recordScanHistory (rule_ID rule)
                                             (int (length filteredResults)) (int newResultsCount)
                                             [] ''success'' [] (env_duration e) st2,
                                  sys_events = sys_events s @ tr\<rparr>))))"

text \<open>
  \<^verbatim>\<open>scan\<close>: the active rules in the order of the table, rule number \<open>k\<close> of the cycle in
  the environment \<open>envs k\<close>, and 5 seconds of sleep after each rule.
\<close>

fun scan_rules :: "(nat \<Rightarrow> env) \<Rightarrow> nat \<Rightarrow> MonitorRule list \<Rightarrow> system \<Rightarrow> system option" where
  "scan_rules envs k [] s = Some s"
| "scan_rules envs k (rule # rules) s =
     (case scanRule (envs k) rule s of
        None \<Rightarrow> None
      | Some s1 \<Rightarrow> scan_rules envs (k + 1) rules (s1\<lparr>sys_events := sys_events s1 @ [Sleep 5]\<rparr>))"

definition scan :: "(nat \<Rightarrow> env) \<Rightarrow> system \<Rightarrow> system option" where
  "scan envs s =
     (case db_call (sys_db s) of
        (ok, st1) \<Rightarrow>
          if \<not> ok then Some (s\<lparr>sys_db := st1\<rparr>)
          else scan_rules envs 0 (filter rule_IsActive (monitor_rules st1)) (s\<lparr>sys_db := st1\<rparr>))"

subsection \<open>Notions and examples used in the properties\<close>



text \<open>
  A pool of two tokens as \<^verbatim>\<open>NewTokenPool\<close> builds it at the zero instant, and an instant
  \<open>t_ex\<close>.
\<close>

definition t_ex :: int where
  "t_ex = 1000 * Minute"

definition two_token_pool :: TokenPool where
  "two_token_pool =
     \<lparr>tokens = [\<lparr>Token = ''tokenA'', RateLimit = None, IsAvailable = True, LastChecked = 0\<rparr>,
                \<lparr>Token = ''tokenB'', RateLimit = None, IsAvailable = True, LastChecked = 0\<rparr>],
      currentIndex = 0\<rparr>"

text \<open>A world in which every token has 4000 of 5000 calls left and resets in an hour.\<close>

definition ample_world :: world where
  "ample_world =
     \<lparr>now = t_ex,
      rate_get = (\<lambda>i. RateCore \<lparr>Limit = 5000, Remaining = 4000, Reset = t_ex + 60 * Minute\<rparr>),
      search_code = (\<lambda>i q page. SearchOk [] 0)\<rparr>"

text \<open>
  Worlds in which every token has 5 calls left: resetting in ten minutes, and resetting in
  two minutes.
\<close>

definition far_world :: world where
  "far_world =
     \<lparr>now = t_ex,
      rate_get = (\<lambda>i. RateCore \<lparr>Limit = 5000, Remaining = 5, Reset = t_ex + 10 * Minute\<rparr>),
      search_code = (\<lambda>i q page. SearchOk [] 0)\<rparr>"

definition near_world :: world where
  "near_world =
     \<lparr>now = t_ex,
      rate_get = (\<lambda>i. RateCore \<lparr>Limit = 5000, Remaining = 5, Reset = t_ex + 2 * Minute\<rparr>),
      search_code = (\<lambda>i q page. SearchOk [] 0)\<rparr>"

text \<open>
  A pool of one token whose snapshot says that nothing remains and that the reset was a
  minute ago: available, and marked unavailable.
\<close>

definition stale_pool :: TokenPool where
  "stale_pool =
     \<lparr>tokens = [\<lparr>Token = ''tokenA'',
                 RateLimit = Some \<lparr>Limit = 5000, Remaining = 0, Reset = t_ex - Minute\<rparr>,
                 IsAvailable = True, LastChecked = t_ex - 61 * Minute\<rparr>],
      currentIndex = 0\<rparr>"

definition stale_unavailable_pool :: TokenPool where
  "stale_unavailable_pool =
     \<lparr>tokens = [\<lparr>Token = ''tokenA'',
                 RateLimit = Some \<lparr>Limit = 5000, Remaining = 0, Reset = t_ex - Minute\<rparr>,
                 IsAvailable = False, LastChecked = t_ex - 61 * Minute\<rparr>],
      currentIndex = 0\<rparr>"

text \<open>A world in which the quota endpoint answers without a core part.\<close>

definition nocore_world :: world where
  "nocore_world =
     \<lparr>now = t_ex, rate_get = (\<lambda>i. RateNoCore), search_code = (\<lambda>i q page. SearchOk [] 0)\<rparr>"

text \<open>A hit in the repository \<^verbatim>\<open>octo/secrets\<close>, and search options for the keyword \<^verbatim>\<open>password\<close>.\<close>

definition secrets_hit :: CodeResult where
  "secrets_hit =
     \<lparr>GetName = ''config.yml'', GetPath = ''deploy/config.yml'',
      GetHTMLURL = ''https://github.com/octo/secrets/blob/main/deploy/config.yml'',
      Repository = Some \<lparr>GetFullName = ''octo/secrets'',
                         RepoGetHTMLURL = ''https://github.com/octo/secrets''\<rparr>,
      TextMatches = [''password: hunter2'']\<rparr>"

definition password_opts :: SearchOptions where
  "password_opts =
     \<lparr>Keywords = [''password''], MatchType = ''fuzzy'', ExcludeExts = [], Language = [],
      Sort = ''indexed'', Order = ''desc''\<rparr>"

text \<open>
  Worlds with ample quota for every token: one in which the search has one hit on page 1
  and nothing on page 2, one in which every search request is answered with status 403,
  one in which it is answered with status 500, and one in which it is answered with
  status 429 and a message that speaks of a secondary rate limit.
\<close>

definition two_page_world :: world where
  "two_page_world =
     ample_world\<lparr>search_code :=
        (\<lambda>i q page. if page = 1 then SearchOk [Some secrets_hit] 1 else SearchOk [] 1)\<rparr>"

definition forbidden_world :: world where
  "forbidden_world =
     ample_world\<lparr>search_code := (\<lambda>i q page. SearchErr (Some 403) ''403 Forbidden'')\<rparr>"

definition broken_world :: world where
  "broken_world =
     ample_world\<lparr>search_code := (\<lambda>i q page. SearchErr (Some 500) ''500 Internal Server Error'')\<rparr>"

definition secondary_limit_world :: world where
  "secondary_limit_world =
     ample_world\<lparr>search_code :=
        (\<lambda>i q page. SearchErr (Some 429) ''429 You have exceeded a secondary rate limit'')\<rparr>"

text \<open>The formatting of an instant in the examples: its number of nanoseconds is not shown.\<close>

definition plain_time :: "int \<Rightarrow> string" where
  "plain_time t = ''T''"


text \<open>
  The pool of two tokens after an acquisition in a world of ample quota, and the item that
  the hit above is converted into at the instant \<open>t_ex\<close>.
\<close>

definition used_pool :: TokenPool where
  "used_pool =
     \<lparr>tokens = [\<lparr>Token = ''tokenA'',
                 RateLimit = Some \<lparr>Limit = 5000, Remaining = 4000, Reset = t_ex + 60 * Minute\<rparr>,
                 IsAvailable = True, LastChecked = t_ex\<rparr>,
                \<lparr>Token = ''tokenB'', RateLimit = None, IsAvailable = True, LastChecked = 0\<rparr>],
      currentIndex = 0\<rparr>"

definition secrets_item :: SearchResultItem where
  "secrets_item =
     \<lparr>RepoFullName = ''octo/secrets'',
      RepoURL = ''https://github.com/octo/secrets'',
      FilePath = ''deploy/config.yml'',
      FileURL = ''https://github.com/octo/secrets/blob/main/deploy/config.yml'',
      HTMLURL = ''https://github.com/octo/secrets/blob/main/deploy/config.yml'',
      MatchedKeywords = [''password''],
      ContentSnippet = ''password: hunter2'',
      Score = 1,
      CreatedAt = t_ex\<rparr>"

text \<open>Two attempts that meet status 403, then the search of two pages.\<close>

definition recovering_worlds :: "nat \<Rightarrow> world" where
  "recovering_worlds i = (if i < 2 then forbidden_world else two_page_world)"

definition forbidden_error :: go_error where
  "forbidden_error = Wrapped ''rate limit exceeded'' (Upstream ''403 Forbidden'')"

definition forbidden_trace :: "event list" where
  "forbidden_trace = [ExecQuery ''password'', RateLimitGet 0, SearchCodeCall 0 1]"

definition two_page_trace :: "event list" where
  "two_page_trace =
     [ExecQuery ''password'', RateLimitGet 0, SearchCodeCall 0 1, Sleep 2, SearchCodeCall 0 2]"

text \<open>
  The attempts of \<^verbatim>\<open>SearchWithRetry\<close> one after the other: each attempt hands the pool it
  leaves to the next. \<open>pool_at\<close> is the pool at the start of attempt \<open>i\<close> (counted from
  0), \<open>attempt\<close> is the call of \<^verbatim>\<open>SearchCode\<close> made there, and \<open>retry_trace\<close> is the trace of
  the first \<open>k\<close> attempts, each followed by the sleep that follows a rate limit.
\<close>

primrec pool_at :: "(nat \<Rightarrow> world) \<Rightarrow> SearchOptions \<Rightarrow> TokenPool \<Rightarrow> nat \<Rightarrow> TokenPool" where
  "pool_at ws opts p 0 = p"
| "pool_at ws opts p (Suc i) = fst (SearchCode (ws i) opts (pool_at ws opts p i))"

definition attempt ::
  "(nat \<Rightarrow> world) \<Rightarrow> SearchOptions \<Rightarrow> TokenPool \<Rightarrow> nat
     \<Rightarrow> TokenPool \<times> event list \<times> SearchResultItem list outcome" where
  "attempt ws opts p i = SearchCode (ws i) opts (pool_at ws opts p i)"

primrec retry_trace :: "(nat \<Rightarrow> world) \<Rightarrow> SearchOptions \<Rightarrow> TokenPool \<Rightarrow> nat \<Rightarrow> event list" where
  "retry_trace ws opts p 0 = []"
| "retry_trace ws opts p (Suc i) =
     retry_trace ws opts p i @ fst (snd (attempt ws opts p i)) @ [Sleep ((i + 1) * 10)]"

text \<open>
  An attempt meets a rate limit, in the sense of \<^verbatim>\<open>SearchWithRetry\<close>, when it fails with an
  error whose message contains \<^verbatim>\<open>rate limit\<close>.
\<close>

definition rate_limit_failure ::
  "(int \<Rightarrow> string) \<Rightarrow> (nat \<Rightarrow> world) \<Rightarrow> SearchOptions \<Rightarrow> TokenPool \<Rightarrow> nat \<Rightarrow> bool" where
  "rate_limit_failure fmt_time ws opts p i =
     (case snd (snd (attempt ws opts p i)) of
        Err err \<Rightarrow> strings_Contains (Error fmt_time err) ''rate limit''
      | Ok results \<Rightarrow> False
      | Panic \<Rightarrow> False)"

text \<open>
  The error and the trace of an attempt that meets status 429, and the pool of two tokens
  after both have been found with 5 calls left and a reset two minutes away.
\<close>

definition secondary_limit_error :: go_error where
  "secondary_limit_error =
     Wrapped ''search failed'' (Upstream ''429 You have exceeded a secondary rate limit'')"

definition drained_pool :: TokenPool where
  "drained_pool =
     \<lparr>tokens = [\<lparr>Token = ''tokenA'',
                 RateLimit = Some \<lparr>Limit = 5000, Remaining = 5, Reset = t_ex + 2 * Minute\<rparr>,
                 IsAvailable = False, LastChecked = t_ex\<rparr>,
                \<lparr>Token = ''tokenB'',
                 RateLimit = Some \<lparr>Limit = 5000, Remaining = 5, Reset = t_ex + 2 * Minute\<rparr>,
                 IsAvailable = False, LastChecked = t_ex\<rparr>],
      currentIndex = 0\<rparr>"

text \<open>
  Two candidates are candidates for the same row of a rule when the database equates their
  repository names and their paths: the row inserted for the first is then found by the
  lookup for the second.
\<close>

definition key_eq :: "(string \<Rightarrow> string \<Rightarrow> bool) \<Rightarrow> SearchResultItem \<Rightarrow> SearchResultItem \<Rightarrow> bool" where
  "key_eq eq c c' \<longleftrightarrow> eq (RepoFullName c) (RepoFullName c') \<and> eq (FilePath c) (FilePath c')"

text \<open>
  The candidates that are the first of the list with their repository name and path:
  every candidate that a candidate before it equals in both is left out.
\<close>

primrec first_of_each_key ::
  "(string \<Rightarrow> string \<Rightarrow> bool) \<Rightarrow> SearchResultItem list \<Rightarrow> SearchResultItem list" where
  "first_of_each_key eq [] = []"
| "first_of_each_key eq (c # cs) = c # filter (\<lambda>c'. \<not> key_eq eq c c') (first_of_each_key eq cs)"

text \<open>
  The equality of the examples ignores the case of the letters \<open>A\<close> to \<open>Z\<close>, as the
  collation \<^verbatim>\<open>utf8mb4_unicode_ci\<close> does.
\<close>

definition ascii_ci_equal :: "string \<Rightarrow> string \<Rightarrow> bool" where
  "ascii_ci_equal a b \<longleftrightarrow> strings_ToLower a = strings_ToLower b"

text \<open>
  A second item, in another repository; two items for files of the first repository whose
  paths differ in case only; a store with empty tables, a store that already holds the
  row of \<open>secrets_item\<close> for rule 1, and an empty store whose second operation fails.
  In the examples the matched keywords are marshalled by joining them with commas.
\<close>

definition other_item :: SearchResultItem where
  "other_item =
     \<lparr>RepoFullName = ''acme/tools'',
      RepoURL = ''https://github.com/acme/tools'',
      FilePath = ''env/prod.env'',
      FileURL = ''https://github.com/acme/tools/blob/main/env/prod.env'',
      HTMLURL = ''https://github.com/acme/tools/blob/main/env/prod.env'',
      MatchedKeywords = [''password''],
      ContentSnippet = ''PASSWORD=abc'',
      Score = 1,
      CreatedAt = t_ex\<rparr>"

definition comma_marshal :: "string list \<Rightarrow> string" where
  "comma_marshal ks = strings_Join ks '',''"

definition upper_item :: SearchResultItem where
  "upper_item =
     secrets_item\<lparr>FilePath := ''docs/README.md'',
       FileURL := ''https://github.com/octo/secrets/blob/main/docs/README.md'',
       HTMLURL := ''https://github.com/octo/secrets/blob/main/docs/README.md''\<rparr>"

definition lower_item :: SearchResultItem where
  "lower_item =
     secrets_item\<lparr>FilePath := ''docs/readme.md'',
       FileURL := ''https://github.com/octo/secrets/blob/main/docs/readme.md'',
       HTMLURL := ''https://github.com/octo/secrets/blob/main/docs/readme.md''\<rparr>"

definition empty_store :: store where
  "empty_store =
     \<lparr>monitor_rules = [], search_results = [], whitelists = [], scan_histories = [],
      faults = [], collation = ascii_ci_equal\<rparr>"

definition store_one_row :: store where
  "store_one_row = empty_store\<lparr>search_results := [newResult comma_marshal 1 secrets_item]\<rparr>"

definition failing_insert_store :: store where
  "failing_insert_store = empty_store\<lparr>faults := [False, True]\<rparr>"

text \<open>
  A rule for the keyword \<^verbatim>\<open>password\<close> (its keywords are the JSON text of the array with
  that one string), the same rule with other ids, with excluded extensions that are not
  JSON, and with keywords that are not JSON. In the examples, \<^verbatim>\<open>json.Unmarshal\<close> accepts
  that JSON text and the empty array and rejects everything else.
\<close>

definition password_json :: string where
  "password_json = ''['' @ [CHR 0x22] @ ''password'' @ [CHR 0x22] @ '']''"

definition example_unmarshal :: "string \<Rightarrow> string + string list" where
  "example_unmarshal s =
     (if s = password_json then Inr [''password'']
      else if s = ''[]'' then Inr []
      else Inl ''invalid character'')"

definition password_rule :: MonitorRule where
  "password_rule =
     \<lparr>rule_ID = 1, rule_Name = ''passwords'', rule_Keywords = password_json,
      rule_MatchType = ''fuzzy'', rule_IsActive = True, rule_ExcludeExts = ''[]''\<rparr>"

definition second_rule :: MonitorRule where
  "second_rule = password_rule\<lparr>rule_ID := 2, rule_Name := ''passwords again''\<rparr>"

definition bad_exts_rule :: MonitorRule where
  "bad_exts_rule = password_rule\<lparr>rule_ExcludeExts := ''md,txt''\<rparr>"

definition bad_keywords_rule :: MonitorRule where
  "bad_keywords_rule = password_rule\<lparr>rule_Keywords := ''password''\<rparr>"

text \<open>
  An environment in which every search attempt meets status 403, and one in which the
  search of two pages works; a cycle whose first rule runs in the former and whose other
  rules run in the latter; a system with the two rules, a fresh pool and empty tables.
\<close>

definition forbidden_env :: env where
  "forbidden_env =
     \<lparr>env_fmt_time = plain_time, env_unmarshal = example_unmarshal, env_marshal = comma_marshal,
      env_worlds = (\<lambda>i. forbidden_world), env_duration = 60\<rparr>"

definition working_env :: env where
  "working_env = forbidden_env\<lparr>env_worlds := (\<lambda>i. two_page_world), env_duration := 3\<rparr>"

definition cycle_envs :: "nat \<Rightarrow> env" where
  "cycle_envs k = (if k = 0 then forbidden_env else working_env)"

definition initial_system :: system where
  "initial_system =
     \<lparr>sys_pool = two_token_pool,
      sys_db = empty_store\<lparr>monitor_rules := [password_rule, second_rule]\<rparr>,
      sys_events = []\<rparr>"

section \<open>Properties\<close>

subsection \<open>The token pool: auxiliary facts\<close>

lemma tokens_nextToken [simp]: "tokens (nextToken p) = tokens p"
  by (simp add: nextToken_def)


lemma length_tokens_mark [simp]: "length (tokens (markTokenUnavailable p i)) = length (tokens p)"
  by (simp add: markTokenUnavailable_def)

lemma currentIndex_mark [simp]: "currentIndex (markTokenUnavailable p i) = currentIndex p"
  by (simp add: markTokenUnavailable_def)

lemma RateLimit_mark [simp]:
  "RateLimit (tokens (markTokenUnavailable p i) ! j) = RateLimit (tokens p ! j)"
  by (cases "i = j") (auto simp: markTokenUnavailable_def)

lemma UpdateRateLimit_available:
  "UpdateRateLimit resp n t = (t', e) \<Longrightarrow> IsAvailable t \<Longrightarrow> IsAvailable t'"
  by (auto simp: UpdateRateLimit_def Let_def split: rate_response.splits if_splits)

text \<open>What a successful \<^verbatim>\<open>GetClient\<close> leaves behind, by induction along the loop.\<close>

lemma GetClient_loop_Ok:
  "GetClient_loop w s m a p tr = (p', tr', Ok i) \<Longrightarrow>
     currentIndex p' = i \<and> i < length (tokens p') \<and> length (tokens p') = length (tokens p)
     \<and> tr' \<noteq> [] \<and> last tr' = RateLimitGet i \<and> IsAvailable (tokens p' ! i)
     \<and> HasRemainingCalls (now w) 10 (tokens p' ! i)"
proof (induction w s m a p tr rule: GetClient_loop.induct)
  case (1 w s m a p tr)
  show ?case
    using "1.prems" "1.IH"
    apply (subst (asm) GetClient_loop.simps)
    apply (auto split: if_splits prod.splits option.splits dest: UpdateRateLimit_available)
    done
qed

lemma IsAvailable_update_True:
  "IsAvailable t \<Longrightarrow>
     t\<lparr>RateLimit := x, LastChecked := y, IsAvailable := True\<rparr> = t\<lparr>RateLimit := x, LastChecked := y\<rparr>"
  by (rule TokenInfo.equality) simp_all

text \<open>One iteration suffices when the token at the pointer passes the check.\<close>

lemma GetClient_at_pointer:
  assumes "currentIndex p < length (tokens p)"
    and "IsAvailable (tokens p ! currentIndex p)"
    and "rate_get w (currentIndex p) = RateCore r"
    and "10 < Remaining r \<or> Reset r < now w"
  shows "GetClient w p =
    (p\<lparr>tokens := (tokens p)[currentIndex p :=
         (tokens p ! currentIndex p)\<lparr>RateLimit := Some r, LastChecked := now w\<rparr>]\<rparr>,
     [RateLimitGet (currentIndex p)], Ok (currentIndex p))"
  using assms
  unfolding GetClient_def
  apply (subst GetClient_loop.simps)
  apply (auto simp: UpdateRateLimit_def HasRemainingCalls_def Let_def IsAvailable_update_True)
  done

lemma GetClient_at_pointer_nocore:
  assumes "currentIndex p < length (tokens p)"
    and "IsAvailable (tokens p ! currentIndex p)"
    and "rate_get w (currentIndex p) = RateNoCore"
    and "RateLimit (tokens p ! currentIndex p) = Some r"
    and "10 < Remaining r \<or> Reset r < now w"
  shows "GetClient w p = (p, [RateLimitGet (currentIndex p)], Ok (currentIndex p))"
  using assms
  unfolding GetClient_def
  apply (subst GetClient_loop.simps)
  apply (auto simp: UpdateRateLimit_def HasRemainingCalls_def Let_def)
  done

lemma GetClient_times_at_pointer:
  assumes "currentIndex p < length (tokens p)"
    and "IsAvailable (tokens p ! currentIndex p)"
    and "\<forall>w\<in>set ws. \<exists>r. rate_get w (currentIndex p) = RateCore r \<and> 10 < Remaining r"
  shows "snd (GetClient_times ws p) = replicate (length ws) (Ok (currentIndex p))
         \<and> currentIndex (fst (GetClient_times ws p)) = currentIndex p"
  using assms
proof (induction ws arbitrary: p)
  case Nil
  then show ?case by simp
next
  case (Cons w ws)
  from Cons.prems(3) obtain r where r: "rate_get w (currentIndex p) = RateCore r" "10 < Remaining r"
    by auto
  let ?p1 = "p\<lparr>tokens := (tokens p)[currentIndex p :=
         (tokens p ! currentIndex p)\<lparr>RateLimit := Some r, LastChecked := now w\<rparr>]\<rparr>"
  have g: "GetClient w p = (?p1, [RateLimitGet (currentIndex p)], Ok (currentIndex p))"
    by (rule GetClient_at_pointer [OF Cons.prems(1,2) r(1)]) (simp add: r(2))
  have ih: "snd (GetClient_times ws ?p1) = replicate (length ws) (Ok (currentIndex ?p1))
         \<and> currentIndex (fst (GetClient_times ws ?p1)) = currentIndex ?p1"
    by (rule Cons.IH) (use Cons.prems in simp_all)
  show ?case
    using ih by (auto simp: g split: prod.splits)
qed














text \<open>The example pool is the pool that \<^verbatim>\<open>NewTokenPool\<close> builds from two tokens.\<close>

lemma NewTokenPool_two_tokens: "NewTokenPool 0 [''tokenA'', ''tokenB''] = Inr two_token_pool"
  by (simp add: NewTokenPool_def two_token_pool_def)








subsection \<open>The token pool: selection\<close>

lemmas pool_examples =
  t_ex_def Minute_def two_token_pool_def ample_world_def far_world_def near_world_def
  stale_pool_def stale_unavailable_pool_def nocore_world_def

lemmas pool_eval =
  GetClient_def GetClient_loop.simps UpdateRateLimit_def HasRemainingCalls_def
  markTokenUnavailable_def nextToken_def cycle_check_def getNextResetTime_def reset_step_def
  time_Until_def Let_def

text \<open>
  C1, as stated, fails. With two credentials that both have ample quota, two consecutive
  calls of \<^verbatim>\<open>GetClient\<close> return the credential at index 0 twice, and after the first call
  the pointer is still 0: the results are not distinct and the pointer has not advanced.
\<close>

theorem GetClient_round_robin_counterexample:
  "snd (GetClient_times [ample_world, ample_world] two_token_pool) = [Ok 0, Ok 0]
   \<and> \<not> distinct (snd (GetClient_times [ample_world, ample_world] two_token_pool))
   \<and> currentIndex (fst (GetClient ample_world two_token_pool)) = 0"
  by (simp add: pool_examples pool_eval)

text \<open>
  C1, amended. A successful \<^verbatim>\<open>GetClient\<close> leaves the pointer on the credential it returns.
  So when the credential at the pointer is available and the quota endpoint reports more
  than 10 remaining calls for it in each of N consecutive calls, all N calls return that
  same credential and the pointer does not move.
\<close>

theorem GetClient_stays_on_credential:
  "(GetClient w p = (p1, tr, Ok i) \<longrightarrow> currentIndex p1 = i \<and> i < length (tokens p1))
   \<and> (currentIndex q < length (tokens q) \<and> IsAvailable (tokens q ! currentIndex q)
        \<and> (\<forall>v\<in>set ws. \<exists>r. rate_get v (currentIndex q) = RateCore r \<and> 10 < Remaining r)
      \<longrightarrow> snd (GetClient_times ws q) = replicate (length ws) (Ok (currentIndex q))
          \<and> currentIndex (fst (GetClient_times ws q)) = currentIndex q)"
proof (intro conjI impI)
  assume g: "GetClient w p = (p1, tr, Ok i)"
  from GetClient_loop_Ok [OF g [unfolded GetClient_def]]
  show "currentIndex p1 = i" and "i < length (tokens p1)" by simp_all
next
  assume h: "currentIndex q < length (tokens q) \<and> IsAvailable (tokens q ! currentIndex q)
        \<and> (\<forall>v\<in>set ws. \<exists>r. rate_get v (currentIndex q) = RateCore r \<and> 10 < Remaining r)"
  from GetClient_times_at_pointer [of q ws] h
  show "snd (GetClient_times ws q) = replicate (length ws) (Ok (currentIndex q))"
    and "currentIndex (fst (GetClient_times ws q)) = currentIndex q" by blast+
qed

theorem GetClient_stays_on_credential_witness:
  "GetClient ample_world two_token_pool =
     (fst (GetClient ample_world two_token_pool), [RateLimitGet 0], Ok 0)
   \<and> currentIndex (fst (GetClient ample_world two_token_pool)) = 0
   \<and> currentIndex two_token_pool < length (tokens two_token_pool)
   \<and> IsAvailable (tokens two_token_pool ! currentIndex two_token_pool)
   \<and> list_all (\<lambda>v. \<exists>r. rate_get v (currentIndex two_token_pool) = RateCore r \<and> 10 < Remaining r)
        [ample_world, ample_world, ample_world]
   \<and> snd (GetClient_times [ample_world, ample_world, ample_world] two_token_pool) = [Ok 0, Ok 0, Ok 0]
   \<and> currentIndex (fst (GetClient_times [ample_world, ample_world, ample_world] two_token_pool)) = 0"
proof -
  have g: "GetClient ample_world two_token_pool =
     (fst (GetClient ample_world two_token_pool), [RateLimitGet 0], Ok 0)"
    by (simp add: pool_examples pool_eval)
  have h1: "currentIndex two_token_pool < length (tokens two_token_pool)"
    and h2: "IsAvailable (tokens two_token_pool ! currentIndex two_token_pool)"
    by (simp_all add: two_token_pool_def)
  have h3: "\<forall>v\<in>set [ample_world, ample_world, ample_world].
      \<exists>r. rate_get v (currentIndex two_token_pool) = RateCore r \<and> 10 < Remaining r"
    by (simp add: ample_world_def)
  have c: "currentIndex two_token_pool = 0" by (simp add: two_token_pool_def)
  from GetClient_stays_on_credential
    [of ample_world two_token_pool "fst (GetClient ample_world two_token_pool)" "[RateLimitGet 0]" 0
        two_token_pool "[ample_world, ample_world, ample_world]"]
    g h1 h2 h3
  have r1: "currentIndex (fst (GetClient ample_world two_token_pool)) = 0"
    and r2: "snd (GetClient_times [ample_world, ample_world, ample_world] two_token_pool)
          = replicate (length [ample_world, ample_world, ample_world]) (Ok (currentIndex two_token_pool))"
    and r3: "currentIndex (fst (GetClient_times [ample_world, ample_world, ample_world] two_token_pool))
          = currentIndex two_token_pool"
    by blast+
  have r2': "snd (GetClient_times [ample_world, ample_world, ample_world] two_token_pool) = [Ok 0, Ok 0, Ok 0]"
    unfolding r2 c by simp
  have r3': "currentIndex (fst (GetClient_times [ample_world, ample_world, ample_world] two_token_pool)) = 0"
    unfolding r3 c by simp
  have h3': "list_all (\<lambda>v. \<exists>r. rate_get v (currentIndex two_token_pool) = RateCore r \<and> 10 < Remaining r)
        [ample_world, ample_world, ample_world]"
    using h3 by (simp only: list_all_iff)
  from g r1 h1 h2 h3' r2' r3' show ?thesis by (intro conjI)
qed

subsection \<open>The token pool: exhaustion\<close>




subsection \<open>The token pool: a reset time that has passed\<close>

text \<open>
  C4, as stated, fails. The pool holds one available credential whose snapshot says that
  nothing remains and that the reset was a minute ago. \<^verbatim>\<open>GetClient\<close> returns it, but only
  after a call to the quota endpoint for it.
\<close>

theorem GetClient_stale_counterexample:
  "snd (snd (GetClient ample_world stale_pool)) = Ok 0
   \<and> fst (snd (GetClient ample_world stale_pool)) = [RateLimitGet 0]
   \<and> fst (snd (GetClient ample_world stale_pool)) \<noteq> []"
  by (simp add: pool_examples pool_eval)

text \<open>
  C4, amended. Whenever \<^verbatim>\<open>GetClient\<close> returns a credential, the last request before
  it returns is a call to the quota endpoint for that credential. When the credential at
  the pointer is available and that call succeeds, the credential is returned whatever its
  remaining count, provided the reset time of the snapshot then held has passed: the
  snapshot of the reply, or the stored one when the reply has no core part.
\<close>

theorem GetClient_refreshes_then_trusts_passed_reset:
  "(GetClient w p = (p1, tr, Ok i) \<longrightarrow> tr \<noteq> [] \<and> last tr = RateLimitGet i)
   \<and> (currentIndex q < length (tokens q) \<and> IsAvailable (tokens q ! currentIndex q)
        \<and> rate_get v (currentIndex q) = RateCore r \<and> Reset r < now v
      \<longrightarrow> snd (GetClient v q) = ([RateLimitGet (currentIndex q)], Ok (currentIndex q)))
   \<and> (currentIndex q' < length (tokens q') \<and> IsAvailable (tokens q' ! currentIndex q')
        \<and> rate_get v' (currentIndex q') = RateNoCore
        \<and> RateLimit (tokens q' ! currentIndex q') = Some r' \<and> Reset r' < now v'
      \<longrightarrow> GetClient v' q' = (q', [RateLimitGet (currentIndex q')], Ok (currentIndex q')))"
proof (intro conjI impI)
  assume g: "GetClient w p = (p1, tr, Ok i)"
  from GetClient_loop_Ok [OF g [unfolded GetClient_def]]
  show "tr \<noteq> []" and "last tr = RateLimitGet i" by simp_all
next
  assume "currentIndex q < length (tokens q) \<and> IsAvailable (tokens q ! currentIndex q)
        \<and> rate_get v (currentIndex q) = RateCore r \<and> Reset r < now v"
  then show "snd (GetClient v q) = ([RateLimitGet (currentIndex q)], Ok (currentIndex q))"
    using GetClient_at_pointer [of q v r] by simp
next
  assume "currentIndex q' < length (tokens q') \<and> IsAvailable (tokens q' ! currentIndex q')
        \<and> rate_get v' (currentIndex q') = RateNoCore
        \<and> RateLimit (tokens q' ! currentIndex q') = Some r' \<and> Reset r' < now v'"
  then show "GetClient v' q' = (q', [RateLimitGet (currentIndex q')], Ok (currentIndex q'))"
    using GetClient_at_pointer_nocore [of q' v' r'] by simp
qed

theorem GetClient_refreshes_then_trusts_passed_reset_witness:
  "GetClient nocore_world stale_pool = (stale_pool, [RateLimitGet 0], Ok 0)
   \<and> currentIndex stale_pool < length (tokens stale_pool)
   \<and> IsAvailable (tokens stale_pool ! currentIndex stale_pool)
   \<and> rate_get nocore_world (currentIndex stale_pool) = RateNoCore
   \<and> RateLimit (tokens stale_pool ! currentIndex stale_pool)
       = Some \<lparr>Limit = 5000, Remaining = 0, Reset = t_ex - Minute\<rparr>
   \<and> t_ex - Minute < now nocore_world
   \<and> rate_get (ample_world\<lparr>now := t_ex + 61 * Minute\<rparr>) (currentIndex stale_pool)
       = RateCore \<lparr>Limit = 5000, Remaining = 4000, Reset = t_ex + 60 * Minute\<rparr>
   \<and> t_ex + 60 * Minute < now (ample_world\<lparr>now := t_ex + 61 * Minute\<rparr>)
   \<and> snd (GetClient (ample_world\<lparr>now := t_ex + 61 * Minute\<rparr>) stale_pool) = ([RateLimitGet 0], Ok 0)"
proof -
  have h: "currentIndex stale_pool < length (tokens stale_pool)"
      "IsAvailable (tokens stale_pool ! currentIndex stale_pool)"
      "rate_get nocore_world (currentIndex stale_pool) = RateNoCore"
      "RateLimit (tokens stale_pool ! currentIndex stale_pool)
         = Some \<lparr>Limit = 5000, Remaining = 0, Reset = t_ex - Minute\<rparr>"
      "t_ex - Minute < now nocore_world"
      "rate_get (ample_world\<lparr>now := t_ex + 61 * Minute\<rparr>) (currentIndex stale_pool)
         = RateCore \<lparr>Limit = 5000, Remaining = 4000, Reset = t_ex + 60 * Minute\<rparr>"
      "t_ex + 60 * Minute < now (ample_world\<lparr>now := t_ex + 61 * Minute\<rparr>)"
    by (simp_all add: pool_examples)
  have c: "currentIndex stale_pool = 0" by (simp add: stale_pool_def)
  have g: "GetClient nocore_world stale_pool = (stale_pool, [RateLimitGet 0], Ok 0)"
    by (simp add: pool_examples pool_eval)
  from GetClient_refreshes_then_trusts_passed_reset
    [of nocore_world stale_pool stale_pool "[RateLimitGet 0]" 0
        stale_pool "ample_world\<lparr>now := t_ex + 61 * Minute\<rparr>"
        "\<lparr>Limit = 5000, Remaining = 4000, Reset = t_ex + 60 * Minute\<rparr>"
        stale_pool nocore_world "\<lparr>Limit = 5000, Remaining = 0, Reset = t_ex - Minute\<rparr>"]
    h
  have "snd (GetClient (ample_world\<lparr>now := t_ex + 61 * Minute\<rparr>) stale_pool)
          = ([RateLimitGet (currentIndex stale_pool)], Ok (currentIndex stale_pool))"
    by simp
  then have a: "snd (GetClient (ample_world\<lparr>now := t_ex + 61 * Minute\<rparr>) stale_pool)
          = ([RateLimitGet 0], Ok 0)"
    unfolding c .
  from g h a show ?thesis by (intro conjI)
qed

text \<open>
  A credential that is marked unavailable is passed over without a request to the quota
  endpoint, also when the reset time of its snapshot has passed: a pool of one such
  credential fails, and the error carries that reset time, a minute before now.
\<close>

lemma GetClient_unavailable_passed_over:
  "GetClient ample_world stale_unavailable_pool
     = (stale_unavailable_pool, [], Err (AllRateLimited (t_ex - Minute)))"
  by (simp add: pool_examples pool_eval)

subsection \<open>The search service: auxiliary facts\<close>

lemmas search_examples =
  secrets_hit_def password_opts_def two_page_world_def forbidden_world_def broken_world_def
  plain_time_def secondary_limit_world_def

lemmas search_eval =
  SearchCode_def SearchCode_loop.simps buildQuery_def convertToSearchResultItem_def
  findMatchedKeywords_def extractSnippet_def strings_Contains_def strings_ToLower_def
  strings_TrimPrefix_def List.map_filter_def SearchWithRetry_def SearchWithRetry_loop.simps
  sublist_code

text \<open>The page loop adds to the trace only requests with the client it was given, and sleeps.\<close>

lemma SearchCode_loop_trace:
  "SearchCode_loop w client query kws page results tr = (tr', r) \<Longrightarrow>
     \<exists>trp. tr' = tr @ trp \<and> list_all (\<lambda>ev. ev = Sleep 2 \<or> (\<exists>pg. ev = SearchCodeCall client pg)) trp"
proof (induction w client query kws page results tr rule: SearchCode_loop.induct)
  case (1 w client query kws page results tr)
  show ?case
  proof (cases "search_code w client query page")
    case (SearchErr status msg)
    with "1.prems" show ?thesis
      by (subst (asm) SearchCode_loop.simps) auto
  next
    case (SearchOk codeResults totalCount)
    show ?thesis
    proof (cases "page \<ge> 10 \<or> length codeResults = 0")
      case True
      with "1.prems" SearchOk show ?thesis
        by (subst (asm) SearchCode_loop.simps) auto
    next
      case False
      from "1.prems" SearchOk False
      have "SearchCode_loop w client query kws (page + 1)
              (results @ List.map_filter (\<lambda>r. convertToSearchResultItem r kws (now w)) codeResults)
              (tr @ [SearchCodeCall client page, Sleep 2]) = (tr', r)"
        by (subst (asm) SearchCode_loop.simps) auto
      from "1.IH" [OF SearchOk False this]
      obtain trp where "tr' = (tr @ [SearchCodeCall client page, Sleep 2]) @ trp"
        and "list_all (\<lambda>ev. ev = Sleep 2 \<or> (\<exists>pg. ev = SearchCodeCall client pg)) trp"
        by blast
      then show ?thesis
        by (intro exI [of _ "[SearchCodeCall client page, Sleep 2] @ trp"]) auto
    qed
  qed
qed

subsection \<open>The search service: one credential for all pages\<close>

text \<open>
  C2, as stated, fails. In a search over two pages with a pool of two credentials that
  both have ample quota, the only call to the quota endpoint, hence the only acquisition,
  comes before page 1; between the requests for page 1 and page 2 there is only the sleep,
  both requests use the credential at index 0, and the pool is the one that the single
  \<^verbatim>\<open>GetClient\<close> left.
\<close>

theorem SearchCode_fresh_credential_counterexample:
  "fst (snd (SearchCode two_page_world password_opts two_token_pool)) =
     [ExecQuery ''password'', RateLimitGet 0, SearchCodeCall 0 1, Sleep 2, SearchCodeCall 0 2]
   \<and> fst (SearchCode two_page_world password_opts two_token_pool)
       = fst (GetClient two_page_world two_token_pool)"
  by (simp add: search_examples search_eval pool_examples pool_eval)

text \<open>
  C2, amended. \<^verbatim>\<open>SearchCode\<close> obtains one credential from the pool, before the first
  page, and every page request of that search uses this same credential: the trace is the
  query, then the trace of one \<^verbatim>\<open>GetClient\<close>, then only page requests with the client
  that this call returned and sleeps of 2 seconds; the pool afterwards is the pool that
  this one \<^verbatim>\<open>GetClient\<close> left. When \<^verbatim>\<open>GetClient\<close> fails, no page is requested.
\<close>

theorem SearchCode_one_credential:
  "SearchCode w opts p = (p1, tr, r) \<longrightarrow>
     (\<exists>trg g. GetClient w p = (p1, trg, g) \<and>
        (case g of
           Ok client \<Rightarrow>
             (\<exists>trp. tr = ExecQuery (buildQuery opts) # trg @ trp \<and>
                list_all (\<lambda>ev. ev = Sleep 2 \<or> (\<exists>pg. ev = SearchCodeCall client pg)) trp)
         | Err err \<Rightarrow> tr = ExecQuery (buildQuery opts) # trg
                        \<and> r = Err (Wrapped ''failed to get client'' err)
         | Panic \<Rightarrow> tr = ExecQuery (buildQuery opts) # trg \<and> r = Panic))"
proof
  assume a: "SearchCode w opts p = (p1, tr, r)"
  obtain p' trg g where g: "GetClient w p = (p', trg, g)"
    by (cases "GetClient w p") auto
  show "\<exists>trg g. GetClient w p = (p1, trg, g) \<and>
        (case g of
           Ok client \<Rightarrow>
             (\<exists>trp. tr = ExecQuery (buildQuery opts) # trg @ trp \<and>
                list_all (\<lambda>ev. ev = Sleep 2 \<or> (\<exists>pg. ev = SearchCodeCall client pg)) trp)
         | Err err \<Rightarrow> tr = ExecQuery (buildQuery opts) # trg
                        \<and> r = Err (Wrapped ''failed to get client'' err)
         | Panic \<Rightarrow> tr = ExecQuery (buildQuery opts) # trg \<and> r = Panic)"
  proof (cases g)
    case (Ok client)
    obtain tr1 r1 where l: "SearchCode_loop w client (buildQuery opts) (Keywords opts) 1 []
        (ExecQuery (buildQuery opts) # trg) = (tr1, r1)"
      by (cases "SearchCode_loop w client (buildQuery opts) (Keywords opts) 1 []
                   (ExecQuery (buildQuery opts) # trg)") auto
    from SearchCode_loop_trace [OF l] obtain trp where
      "tr1 = (ExecQuery (buildQuery opts) # trg) @ trp"
      "list_all (\<lambda>ev. ev = Sleep 2 \<or> (\<exists>pg. ev = SearchCodeCall client pg)) trp" by blast
    with a g Ok l show ?thesis
      by (auto simp: SearchCode_def Let_def)
  next
    case (Err err)
    with a g show ?thesis by (auto simp: SearchCode_def Let_def)
  next
    case Panic
    with a g show ?thesis by (auto simp: SearchCode_def Let_def)
  qed
qed

theorem SearchCode_one_credential_witness:
  "SearchCode two_page_world password_opts two_token_pool =
     (fst (GetClient two_page_world two_token_pool),
      [ExecQuery ''password'', RateLimitGet 0, SearchCodeCall 0 1, Sleep 2, SearchCodeCall 0 2],
      snd (snd (SearchCode two_page_world password_opts two_token_pool)))
   \<and> (\<exists>trg g. GetClient two_page_world two_token_pool
                  = (fst (GetClient two_page_world two_token_pool), trg, g))"
proof -
  have s: "SearchCode two_page_world password_opts two_token_pool =
     (fst (GetClient two_page_world two_token_pool),
      [ExecQuery ''password'', RateLimitGet 0, SearchCodeCall 0 1, Sleep 2, SearchCodeCall 0 2],
      snd (snd (SearchCode two_page_world password_opts two_token_pool)))"
    by (simp add: search_examples search_eval pool_examples pool_eval)
  from SearchCode_one_credential
    [of two_page_world password_opts two_token_pool "fst (GetClient two_page_world two_token_pool)"
        "[ExecQuery ''password'', RateLimitGet 0, SearchCodeCall 0 1, Sleep 2, SearchCodeCall 0 2]"
        "snd (snd (SearchCode two_page_world password_opts two_token_pool))"] s
  have "\<exists>trg g. GetClient two_page_world two_token_pool
                  = (fst (GetClient two_page_world two_token_pool), trg, g)"
    by blast
  with s show ?thesis by (intro conjI)
qed


subsection \<open>The search service: retry\<close>

lemmas retry_examples =
  used_pool_def secrets_item_def recovering_worlds_def forbidden_error_def forbidden_trace_def
  two_page_trace_def secondary_limit_error_def drained_pool_def

lemma retry_step_rate_limit:
  assumes "int i < maxRetries" "SearchCode (ws i) opts p = (p1, tr1, Err err)"
    "strings_Contains (Error fmt err) ''rate limit''"
  shows "SearchWithRetry_loop fmt ws opts maxRetries i lastErr p tr =
         SearchWithRetry_loop fmt ws opts maxRetries (i + 1) (Some err) p1 (tr @ tr1 @ [Sleep ((i + 1) * 10)])"
  using assms by (subst SearchWithRetry_loop.simps) simp

lemma retry_exhausted:
  assumes "\<not> int i < maxRetries"
  shows "SearchWithRetry_loop fmt ws opts maxRetries i (Some err) p tr =
           (p, tr, Err (Wrapped ''max retries exceeded'' err))"
  using assms by (subst SearchWithRetry_loop.simps) simp

lemma retry_two_failures_then_success:
  assumes "SearchCode (ws 0) opts p = (p1, tr1, Err e1)" "strings_Contains (Error fmt e1) ''rate limit''"
    "SearchCode (ws 1) opts p1 = (p2, tr2, Err e2)" "strings_Contains (Error fmt e2) ''rate limit''"
    "SearchCode (ws 2) opts p2 = (p3, tr3, Ok results)"
  shows "SearchWithRetry fmt ws opts 3 p = (p3, tr1 @ [Sleep 10] @ tr2 @ [Sleep 20] @ tr3, Ok results)"
proof -
  have a2: "SearchWithRetry_loop fmt ws opts 3 (Suc (Suc 0)) (Some e2) p2 T = (p3, T @ tr3, Ok results)" for T
    using assms(5) by (subst SearchWithRetry_loop.simps) (simp add: numeral_2_eq_2)
  have a1: "SearchWithRetry_loop fmt ws opts 3 (Suc 0) (Some e1) p1 T =
      (p3, T @ tr2 @ [Sleep 20] @ tr3, Ok results)" for T
    using assms(3,4) by (subst SearchWithRetry_loop.simps) (simp add: a2)
  show ?thesis
    unfolding SearchWithRetry_def
    using assms(1,2) by (subst SearchWithRetry_loop.simps) (simp add: a1)
qed

lemma contains_rate_limit_exceeded: "strings_Contains (''rate limit exceeded'' @ s) ''rate limit''"
  by (simp add: strings_Contains_def sublist_Cons_right)


text \<open>The errors of \<^verbatim>\<open>GetClient\<close> and of the page loop, and which of their messages contain \<^verbatim>\<open>rate limit\<close>.\<close>

lemma GetClient_loop_Err:
  "GetClient_loop w s m a p tr = (p', tr', Err err) \<Longrightarrow>
     err = NoAvailableTokens \<or> (\<exists>T. err = AllRateLimited T)"
proof (induction w s m a p tr rule: GetClient_loop.induct)
  case (1 w s m a p tr)
  show ?case
    using "1.prems" "1.IH"
    apply (subst (asm) GetClient_loop.simps)
    apply (auto simp: cycle_check_def Let_def split: if_splits prod.splits option.splits)
    done
qed

lemma SearchCode_loop_Err:
  "SearchCode_loop w client query kws page results tr = (tr', Err e) \<Longrightarrow>
     \<exists>pg status msg. search_code w client query pg = SearchErr status msg
        \<and> tr' \<noteq> [] \<and> last tr' = SearchCodeCall client pg
        \<and> e = (if status = Some 403 then Wrapped ''rate limit exceeded'' (Upstream msg)
               else Wrapped ''search failed'' (Upstream msg))"
proof (induction w client query kws page results tr rule: SearchCode_loop.induct)
  case (1 w client query kws page results tr)
  show ?case
  proof (cases "search_code w client query page")
    case (SearchErr status msg)
    from "1.prems" SearchErr have "tr' = tr @ [SearchCodeCall client page]"
      and "e = (if status = Some 403 then Wrapped ''rate limit exceeded'' (Upstream msg)
                else Wrapped ''search failed'' (Upstream msg))"
      by (subst (asm) SearchCode_loop.simps, simp)+
    with SearchErr show ?thesis
      by (intro exI [of _ page] exI [of _ status] exI [of _ msg]) simp
  next
    case (SearchOk codeResults totalCount)
    show ?thesis
    proof (cases "page \<ge> 10 \<or> length codeResults = 0")
      case True
      with "1.prems" SearchOk show ?thesis
        by (subst (asm) SearchCode_loop.simps) auto
    next
      case False
      from "1.prems" SearchOk False
      have "SearchCode_loop w client query kws (page + 1)
              (results @ List.map_filter (\<lambda>r. convertToSearchResultItem r kws (now w)) codeResults)
              (tr @ [SearchCodeCall client page, Sleep 2]) = (tr', Err e)"
        by (subst (asm) SearchCode_loop.simps) auto
      from "1.IH" [OF SearchOk False this] show ?thesis .
    qed
  qed
qed

lemma contains_search_failed:
  "strings_Contains (Error fmt (Wrapped ''search failed'' (Upstream msg))) ''rate limit''
     = strings_Contains msg ''rate limit''"
  by (simp add: strings_Contains_def sublist_Cons_right)

lemma contains_forbidden:
  "strings_Contains (Error fmt (Wrapped ''rate limit exceeded'' (Upstream msg))) ''rate limit''"
  by (simp add: strings_Contains_def sublist_Cons_right)

lemma contains_all_rate_limited:
  "strings_Contains (Error fmt (Wrapped ''failed to get client'' (AllRateLimited T))) ''rate limit''"
  by (simp add: strings_Contains_def sublist_Cons_right)

lemma not_contains_no_tokens:
  "\<not> strings_Contains (Error fmt (Wrapped ''failed to get client'' NoAvailableTokens)) ''rate limit''"
  by (simp add: strings_Contains_def sublist_code)

text \<open>
  Which failures of \<^verbatim>\<open>SearchCode\<close> have a message that contains \<^verbatim>\<open>rate limit\<close>: the failure
  of \<^verbatim>\<open>GetClient\<close> with the error that all tokens are rate limited, the failure of a page
  request with status 403, and the failure of a page request whose own message contains
  these words.
\<close>

lemma SearchCode_rate_limit_failure:
  assumes "SearchCode w opts p = (p1, tr, Err e)"
  shows "strings_Contains (Error fmt e) ''rate limit'' =
     (case snd (snd (GetClient w p)) of
        Err err \<Rightarrow> (\<exists>T. err = AllRateLimited T)
      | Ok client \<Rightarrow>
          (\<exists>pg status msg. last tr = SearchCodeCall client pg
             \<and> search_code w client (buildQuery opts) pg = SearchErr status msg
             \<and> (status = Some 403 \<or> strings_Contains msg ''rate limit''))
      | Panic \<Rightarrow> False)"
proof -
  obtain p' trg g where g: "GetClient w p = (p', trg, g)"
    by (cases "GetClient w p") auto
  show ?thesis
  proof (cases g)
    case Panic
    with assms g show ?thesis by (simp add: SearchCode_def Let_def)
  next
    case (Err err)
    with assms g have e: "e = Wrapped ''failed to get client'' err"
      by (simp add: SearchCode_def Let_def)
    from GetClient_loop_Err [OF g [unfolded GetClient_def Err]]
    consider "err = NoAvailableTokens" | T where "err = AllRateLimited T" by blast
    then show ?thesis
    proof cases
      case 1
      with e g Err not_contains_no_tokens [of fmt] show ?thesis by simp
    next
      case 2
      with e g Err contains_all_rate_limited [of fmt T] show ?thesis by simp
    qed
  next
    case (Ok client)
    with assms g
    have l: "SearchCode_loop w client (buildQuery opts) (Keywords opts) 1 []
        (ExecQuery (buildQuery opts) # trg) = (tr, Err e)"
      by (simp add: SearchCode_def Let_def split: prod.splits)
    from SearchCode_loop_Err [OF l] obtain pg status msg where
      f: "search_code w client (buildQuery opts) pg = SearchErr status msg"
        "last tr = SearchCodeCall client pg"
        "e = (if status = Some 403 then Wrapped ''rate limit exceeded'' (Upstream msg)
              else Wrapped ''search failed'' (Upstream msg))"
      by blast
    have c: "strings_Contains (Error fmt e) ''rate limit''
        \<longleftrightarrow> status = Some 403 \<or> strings_Contains msg ''rate limit''"
      using contains_forbidden [of fmt msg] contains_search_failed [of fmt msg]
      by (simp add: f(3))
    have "(\<exists>pg' status' msg'. last tr = SearchCodeCall client pg'
             \<and> search_code w client (buildQuery opts) pg' = SearchErr status' msg'
             \<and> (status' = Some 403 \<or> strings_Contains msg' ''rate limit''))
        \<longleftrightarrow> status = Some 403 \<or> strings_Contains msg ''rate limit''"
      using f(1,2) by auto
    with c g Ok show ?thesis by simp
  qed
qed

text \<open>As long as the attempts meet rate limits, the loop goes from one to the next.\<close>

lemma retry_run:
  assumes "int k \<le> maxRetries" and "\<forall>i<k. rate_limit_failure fmt ws opts p i"
  shows "SearchWithRetry_loop fmt ws opts maxRetries 0 None p [] =
         SearchWithRetry_loop fmt ws opts maxRetries k
           (case k of 0 \<Rightarrow> None
            | Suc j \<Rightarrow> (case snd (snd (attempt ws opts p j)) of
                          Err e \<Rightarrow> Some e | Ok results \<Rightarrow> None | Panic \<Rightarrow> None))
           (pool_at ws opts p k) (retry_trace ws opts p k)"
  using assms
proof (induction k)
  case 0
  show ?case by simp
next
  case (Suc k)
  from Suc.prems have le: "int k \<le> maxRetries" and lt: "int k < maxRetries"
    and before: "\<forall>i<k. rate_limit_failure fmt ws opts p i"
    and this_one: "rate_limit_failure fmt ws opts p k"
    by simp_all
  obtain p1 tr1 r1 where a: "SearchCode (ws k) opts (pool_at ws opts p k) = (p1, tr1, r1)"
    by (cases "SearchCode (ws k) opts (pool_at ws opts p k)") auto
  from this_one a obtain e where e: "r1 = Err e" "strings_Contains (Error fmt e) ''rate limit''"
    by (cases r1) (simp_all add: rate_limit_failure_def attempt_def)
  have "SearchWithRetry_loop fmt ws opts maxRetries 0 None p [] =
        SearchWithRetry_loop fmt ws opts maxRetries k
           (case k of 0 \<Rightarrow> None
            | Suc j \<Rightarrow> (case snd (snd (attempt ws opts p j)) of
                          Err e \<Rightarrow> Some e | Ok results \<Rightarrow> None | Panic \<Rightarrow> None))
           (pool_at ws opts p k) (retry_trace ws opts p k)"
    by (rule Suc.IH [OF le before])
  also have "\<dots> = SearchWithRetry_loop fmt ws opts maxRetries (k + 1) (Some e) p1
                     (retry_trace ws opts p k @ tr1 @ [Sleep ((k + 1) * 10)])"
    using lt a e
    by (intro retry_step_rate_limit [where i = k and ws = ws and p = "pool_at ws opts p k"]) simp_all
  finally show ?case
    using a e(1) by (simp add: attempt_def)
qed

text \<open>
  C6, as stated, fails: the failures that are retried are not only those that the search
  call answers with status 403. When every page request is answered with status 429 and a
  message that speaks of a rate limit, \<^verbatim>\<open>SearchWithRetry\<close> with 3 attempts does not return the
  error of the first attempt at once: it makes three requests, sleeps 10, 20 and 30
  seconds, and returns the error wrapped as \<^verbatim>\<open>max retries exceeded\<close>. So it does when
  \<^verbatim>\<open>GetClient\<close> fails because all tokens are rate limited, where no search request is made
  at all.
\<close>

theorem SearchWithRetry_policy_counterexample:
  "search_code secondary_limit_world 0 ''password'' 1
     = SearchErr (Some 429) ''429 You have exceeded a secondary rate limit''
   \<and> SearchWithRetry plain_time (\<lambda>i. secondary_limit_world) password_opts 3 two_token_pool
     = (used_pool,
        [ExecQuery ''password'', RateLimitGet 0, SearchCodeCall 0 1, Sleep 10,
         ExecQuery ''password'', RateLimitGet 0, SearchCodeCall 0 1, Sleep 20,
         ExecQuery ''password'', RateLimitGet 0, SearchCodeCall 0 1, Sleep 30],
        Err (Wrapped ''max retries exceeded'' secondary_limit_error))
   \<and> SearchWithRetry plain_time (\<lambda>i. near_world) password_opts 3 two_token_pool
     = (drained_pool,
        [ExecQuery ''password'', RateLimitGet 0, RateLimitGet 1, Sleep 10,
         ExecQuery ''password'', Sleep 20, ExecQuery ''password'', Sleep 30],
        Err (Wrapped ''max retries exceeded''
               (Wrapped ''failed to get client'' (AllRateLimited (t_ex + 2 * Minute)))))"
  by (simp add: retry_examples search_examples search_eval pool_examples pool_eval)

text \<open>
  C6, amended. \<^verbatim>\<open>SearchWithRetry\<close> takes a failure for a rate limit when its message
  contains \<^verbatim>\<open>rate limit\<close>. The failures of a search with such a message are: the failure
  to get a client because all tokens are rate limited, every page request answered with
  status 403, and every other failed page request whose own message contains these words;
  the failure to get a client for want of available tokens is none.

  The attempts are made one after the other. While they meet rate limits, attempt
  \<open>i + 1\<close> is followed by a sleep of \<open>(i + 1) * 10\<close> seconds and by the next attempt. The
  first attempt that does not meet a rate limit (it succeeds, or fails otherwise) ends the
  call, if it is among the first \<open>n\<close>: its result is returned at once, and the trace is
  that of the attempts and sleeps before it and of the attempt itself. When all \<open>n > 0\<close>
  attempts meet rate limits, the call returns, after the sleep that follows the last of
  them, the error of the last attempt wrapped as \<^verbatim>\<open>max retries exceeded\<close>. In particular,
  with 3 attempts, two rate limits and then a success give the successful result, with
  sleeps of 10 and of 20 seconds between the attempts.
\<close>

theorem SearchWithRetry_policy:
  "(k < n \<and> (\<forall>i<k. rate_limit_failure fmt ws opts p i) \<and> \<not> rate_limit_failure fmt ws opts p k
      \<longrightarrow> SearchWithRetry fmt ws opts (int n) p
          = (fst (attempt ws opts p k),
             retry_trace ws opts p k @ fst (snd (attempt ws opts p k)),
             snd (snd (attempt ws opts p k))))
   \<and> (0 < nb \<and> (\<forall>i<nb. rate_limit_failure fmtb wsb optsb pb i)
      \<longrightarrow> (\<exists>e. snd (snd (attempt wsb optsb pb (nb - 1))) = Err e
             \<and> SearchWithRetry fmtb wsb optsb (int nb) pb
                 = (pool_at wsb optsb pb nb, retry_trace wsb optsb pb nb,
                    Err (Wrapped ''max retries exceeded'' e))))
   \<and> (SearchCode wc optsc pc = (pc1, trc, Err ec)
      \<longrightarrow> strings_Contains (Error fmtc ec) ''rate limit'' =
            (case snd (snd (GetClient wc pc)) of
               Err err \<Rightarrow> (\<exists>T. err = AllRateLimited T)
             | Ok client \<Rightarrow>
                 (\<exists>pg status msg. last trc = SearchCodeCall client pg
                    \<and> search_code wc client (buildQuery optsc) pg = SearchErr status msg
                    \<and> (status = Some 403 \<or> strings_Contains msg ''rate limit''))
             | Panic \<Rightarrow> False))
   \<and> (SearchCode (wsd 0) optsd pd = (pd1, trd1, Err ed1)
        \<and> strings_Contains (Error fmtd ed1) ''rate limit''
        \<and> SearchCode (wsd 1) optsd pd1 = (pd2, trd2, Err ed2)
        \<and> strings_Contains (Error fmtd ed2) ''rate limit''
        \<and> SearchCode (wsd 2) optsd pd2 = (pd3, trd3, Ok results)
      \<longrightarrow> SearchWithRetry fmtd wsd optsd 3 pd
          = (pd3, trd1 @ [Sleep 10] @ trd2 @ [Sleep 20] @ trd3, Ok results))"
proof (intro conjI impI)
  assume a: "k < n \<and> (\<forall>i<k. rate_limit_failure fmt ws opts p i) \<and> \<not> rate_limit_failure fmt ws opts p k"
  then have lt: "int k < int n" and le: "int k \<le> int n" by simp_all
  obtain p1 tr1 r1 where at: "SearchCode (ws k) opts (pool_at ws opts p k) = (p1, tr1, r1)"
    by (cases "SearchCode (ws k) opts (pool_at ws opts p k)") auto
  let ?le = "case k of 0 \<Rightarrow> None
            | Suc j \<Rightarrow> (case snd (snd (attempt ws opts p j)) of
                          Err e \<Rightarrow> Some e | Ok results \<Rightarrow> None | Panic \<Rightarrow> None)"
  have run: "SearchWithRetry fmt ws opts (int n) p =
      SearchWithRetry_loop fmt ws opts (int n) k ?le (pool_at ws opts p k) (retry_trace ws opts p k)"
    unfolding SearchWithRetry_def using a by (intro retry_run [OF le]) blast
  have "SearchWithRetry_loop fmt ws opts (int n) k ?le (pool_at ws opts p k) (retry_trace ws opts p k)
      = (p1, retry_trace ws opts p k @ tr1, r1)"
  proof (cases r1)
    case (Ok results)
    with lt at show ?thesis by (subst SearchWithRetry_loop.simps) simp
  next
    case Panic
    with lt at show ?thesis by (subst SearchWithRetry_loop.simps) simp
  next
    case (Err e)
    with a at have "\<not> strings_Contains (Error fmt e) ''rate limit''"
      by (simp add: rate_limit_failure_def attempt_def)
    with lt at Err show ?thesis by (subst SearchWithRetry_loop.simps) simp
  qed
  with run at
  show "SearchWithRetry fmt ws opts (int n) p
          = (fst (attempt ws opts p k),
             retry_trace ws opts p k @ fst (snd (attempt ws opts p k)),
             snd (snd (attempt ws opts p k)))"
    by (simp add: attempt_def)
next
  assume b: "0 < nb \<and> (\<forall>i<nb. rate_limit_failure fmtb wsb optsb pb i)"
  then obtain j where j: "nb = Suc j" by (cases nb) auto
  from b j have "rate_limit_failure fmtb wsb optsb pb j" by simp
  then obtain e where e: "snd (snd (attempt wsb optsb pb j)) = Err e"
    by (cases "snd (snd (attempt wsb optsb pb j))") (simp_all add: rate_limit_failure_def)
  have "SearchWithRetry fmtb wsb optsb (int nb) pb =
      SearchWithRetry_loop fmtb wsb optsb (int nb) nb (Some e)
        (pool_at wsb optsb pb nb) (retry_trace wsb optsb pb nb)"
    unfolding SearchWithRetry_def
    using retry_run [of nb "int nb" fmtb wsb optsb pb] b e j by simp
  also have "\<dots> = (pool_at wsb optsb pb nb, retry_trace wsb optsb pb nb,
                    Err (Wrapped ''max retries exceeded'' e))"
    by (rule retry_exhausted) simp
  finally show "\<exists>e. snd (snd (attempt wsb optsb pb (nb - 1))) = Err e
             \<and> SearchWithRetry fmtb wsb optsb (int nb) pb
                 = (pool_at wsb optsb pb nb, retry_trace wsb optsb pb nb,
                    Err (Wrapped ''max retries exceeded'' e))"
    using e j by simp
next
  assume "SearchCode wc optsc pc = (pc1, trc, Err ec)"
  then show "strings_Contains (Error fmtc ec) ''rate limit'' =
            (case snd (snd (GetClient wc pc)) of
               Err err \<Rightarrow> (\<exists>T. err = AllRateLimited T)
             | Ok client \<Rightarrow>
                 (\<exists>pg status msg. last trc = SearchCodeCall client pg
                    \<and> search_code wc client (buildQuery optsc) pg = SearchErr status msg
                    \<and> (status = Some 403 \<or> strings_Contains msg ''rate limit''))
             | Panic \<Rightarrow> False)"
    by (rule SearchCode_rate_limit_failure)
next
  assume "SearchCode (wsd 0) optsd pd = (pd1, trd1, Err ed1)
        \<and> strings_Contains (Error fmtd ed1) ''rate limit''
        \<and> SearchCode (wsd 1) optsd pd1 = (pd2, trd2, Err ed2)
        \<and> strings_Contains (Error fmtd ed2) ''rate limit''
        \<and> SearchCode (wsd 2) optsd pd2 = (pd3, trd3, Ok results)"
  then show "SearchWithRetry fmtd wsd optsd 3 pd
          = (pd3, trd1 @ [Sleep 10] @ trd2 @ [Sleep 20] @ trd3, Ok results)"
    using retry_two_failures_then_success by blast
qed

theorem SearchWithRetry_policy_witness:
  "rate_limit_failure plain_time recovering_worlds password_opts two_token_pool 0
   \<and> rate_limit_failure plain_time recovering_worlds password_opts two_token_pool (Suc 0)
   \<and> \<not> rate_limit_failure plain_time recovering_worlds password_opts two_token_pool (Suc (Suc 0))
   \<and> SearchWithRetry plain_time recovering_worlds password_opts 3 two_token_pool
     = (used_pool, forbidden_trace @ [Sleep 10] @ forbidden_trace @ [Sleep 20] @ two_page_trace,
        Ok [secrets_item])
   \<and> \<not> rate_limit_failure plain_time (\<lambda>i. broken_world) password_opts two_token_pool 0
   \<and> SearchWithRetry plain_time (\<lambda>i. broken_world) password_opts 3 two_token_pool
     = (used_pool, forbidden_trace,
        Err (Wrapped ''search failed'' (Upstream ''500 Internal Server Error'')))
   \<and> rate_limit_failure plain_time (\<lambda>i. forbidden_world) password_opts two_token_pool 0
   \<and> rate_limit_failure plain_time (\<lambda>i. forbidden_world) password_opts two_token_pool (Suc 0)
   \<and> rate_limit_failure plain_time (\<lambda>i. forbidden_world) password_opts two_token_pool (Suc (Suc 0))
   \<and> SearchWithRetry plain_time (\<lambda>i. forbidden_world) password_opts 3 two_token_pool
     = (used_pool,
        forbidden_trace @ [Sleep 10] @ forbidden_trace @ [Sleep 20] @ forbidden_trace @ [Sleep 30],
        Err (Wrapped ''max retries exceeded'' forbidden_error))
   \<and> SearchCode forbidden_world password_opts two_token_pool
     = (used_pool, forbidden_trace, Err forbidden_error)
   \<and> strings_Contains (Error plain_time forbidden_error) ''rate limit''
   \<and> SearchCode (recovering_worlds 0) password_opts two_token_pool
     = (used_pool, forbidden_trace, Err forbidden_error)
   \<and> SearchCode (recovering_worlds 1) password_opts used_pool
     = (used_pool, forbidden_trace, Err forbidden_error)
   \<and> SearchCode (recovering_worlds 2) password_opts used_pool
     = (used_pool, two_page_trace, Ok [secrets_item])"
proof -
  have f0: "SearchCode forbidden_world password_opts two_token_pool
      = (used_pool, forbidden_trace, Err forbidden_error)"
    by (simp add: retry_examples search_examples search_eval pool_examples pool_eval)
  have f1: "SearchCode forbidden_world password_opts used_pool
      = (used_pool, forbidden_trace, Err forbidden_error)"
    by (simp add: retry_examples search_examples search_eval pool_examples pool_eval)
  have s2: "SearchCode two_page_world password_opts used_pool
      = (used_pool, two_page_trace, Ok [secrets_item])"
    by (simp add: retry_examples search_examples search_eval pool_examples pool_eval)
  have b0: "SearchCode broken_world password_opts two_token_pool
      = (used_pool, forbidden_trace,
         Err (Wrapped ''search failed'' (Upstream ''500 Internal Server Error'')))"
    by (simp add: retry_examples search_examples search_eval pool_examples pool_eval)
  have w0: "recovering_worlds 0 = forbidden_world" and w1: "recovering_worlds (Suc 0) = forbidden_world"
    and w2: "recovering_worlds (Suc (Suc 0)) = two_page_world"
    by (simp_all add: recovering_worlds_def)
  have c: "strings_Contains (Error plain_time forbidden_error) ''rate limit''"
    by (simp add: forbidden_error_def strings_Contains_def sublist_code)
  have nc: "\<not> strings_Contains
         (Error plain_time (Wrapped ''search failed'' (Upstream ''500 Internal Server Error'')))
         ''rate limit''"
    by (simp add: strings_Contains_def sublist_code)
  txt \<open>Two rate limits, then a success.\<close>
  have ra0: "attempt recovering_worlds password_opts two_token_pool 0
      = (used_pool, forbidden_trace, Err forbidden_error)"
    by (simp add: attempt_def w0 f0)
  have ra1: "attempt recovering_worlds password_opts two_token_pool (Suc 0)
      = (used_pool, forbidden_trace, Err forbidden_error)"
    by (simp add: attempt_def w0 w1 f0 f1)
  have ra2: "attempt recovering_worlds password_opts two_token_pool (Suc (Suc 0))
      = (used_pool, two_page_trace, Ok [secrets_item])"
    by (simp add: attempt_def w0 w1 w2 f0 f1 s2)
  have rr0: "rate_limit_failure plain_time recovering_worlds password_opts two_token_pool 0"
    and rr1: "rate_limit_failure plain_time recovering_worlds password_opts two_token_pool (Suc 0)"
    and rr2: "\<not> rate_limit_failure plain_time recovering_worlds password_opts two_token_pool (Suc (Suc 0))"
    by (simp_all add: rate_limit_failure_def ra0 ra1 ra2 c)
  txt \<open>A failure that is no rate limit, at the first attempt.\<close>
  have ba0: "attempt (\<lambda>i. broken_world) password_opts two_token_pool 0
      = (used_pool, forbidden_trace,
         Err (Wrapped ''search failed'' (Upstream ''500 Internal Server Error'')))"
    by (simp add: attempt_def b0)
  have br0: "\<not> rate_limit_failure plain_time (\<lambda>i. broken_world) password_opts two_token_pool 0"
    using nc by (simp add: rate_limit_failure_def ba0)
  txt \<open>Three rate limits.\<close>
  have fa0: "attempt (\<lambda>i. forbidden_world) password_opts two_token_pool 0
      = (used_pool, forbidden_trace, Err forbidden_error)"
    by (simp add: attempt_def f0)
  have fa1: "attempt (\<lambda>i. forbidden_world) password_opts two_token_pool (Suc 0)
      = (used_pool, forbidden_trace, Err forbidden_error)"
    by (simp add: attempt_def f0 f1)
  have fa2: "attempt (\<lambda>i. forbidden_world) password_opts two_token_pool (Suc (Suc 0))
      = (used_pool, forbidden_trace, Err forbidden_error)"
    by (simp add: attempt_def f0 f1)
  have fr0: "rate_limit_failure plain_time (\<lambda>i. forbidden_world) password_opts two_token_pool 0"
    and fr1: "rate_limit_failure plain_time (\<lambda>i. forbidden_world) password_opts two_token_pool (Suc 0)"
    and fr2: "rate_limit_failure plain_time (\<lambda>i. forbidden_world) password_opts two_token_pool (Suc (Suc 0))"
    by (simp_all add: rate_limit_failure_def fa0 fa1 fa2 c)
  have fall: "\<forall>i<Suc (Suc (Suc 0)).
      rate_limit_failure plain_time (\<lambda>i. forbidden_world) password_opts two_token_pool i"
    using fr0 fr1 fr2 by (simp add: less_Suc_eq)
  note inst = SearchWithRetry_policy
    [where k = "Suc (Suc 0)" and n = "Suc (Suc (Suc 0))" and fmt = plain_time
       and ws = recovering_worlds and opts = password_opts and p = two_token_pool
       and nb = "Suc (Suc (Suc 0))" and fmtb = plain_time and wsb = "\<lambda>i. forbidden_world"
       and optsb = password_opts and pb = two_token_pool
       and wc = forbidden_world and optsc = password_opts and pc = two_token_pool
       and ?pc1.0 = used_pool and trc = forbidden_trace and ec = forbidden_error
       and fmtc = plain_time
       and wsd = recovering_worlds and optsd = password_opts and pd = two_token_pool
       and ?pd1.0 = used_pool and ?trd1.0 = forbidden_trace and ?ed1.0 = forbidden_error
       and fmtd = plain_time and ?pd2.0 = used_pool and ?trd2.0 = forbidden_trace
       and ?ed2.0 = forbidden_error and ?pd3.0 = used_pool and ?trd3.0 = two_page_trace
       and results = "[secrets_item]"]
  note instb = SearchWithRetry_policy
    [where k = 0 and n = "Suc (Suc (Suc 0))" and fmt = plain_time
       and ws = "\<lambda>i. broken_world" and opts = password_opts and p = two_token_pool]
  have rall: "\<forall>i<Suc (Suc 0).
      rate_limit_failure plain_time recovering_worlds password_opts two_token_pool i"
    using rr0 rr1 by (simp add: less_Suc_eq)
  from inst rall rr2
  have "SearchWithRetry plain_time recovering_worlds password_opts (int (Suc (Suc (Suc 0)))) two_token_pool
      = (fst (attempt recovering_worlds password_opts two_token_pool (Suc (Suc 0))),
         retry_trace recovering_worlds password_opts two_token_pool (Suc (Suc 0))
           @ fst (snd (attempt recovering_worlds password_opts two_token_pool (Suc (Suc 0)))),
         snd (snd (attempt recovering_worlds password_opts two_token_pool (Suc (Suc 0)))))"
    by simp
  then have A: "SearchWithRetry plain_time recovering_worlds password_opts 3 two_token_pool
     = (used_pool, forbidden_trace @ [Sleep 10] @ forbidden_trace @ [Sleep 20] @ two_page_trace,
        Ok [secrets_item])"
    by (simp add: ra0 ra1 ra2)
  from instb br0
  have "SearchWithRetry plain_time (\<lambda>i. broken_world) password_opts (int (Suc (Suc (Suc 0)))) two_token_pool
      = (fst (attempt (\<lambda>i. broken_world) password_opts two_token_pool 0),
         retry_trace (\<lambda>i. broken_world) password_opts two_token_pool 0
           @ fst (snd (attempt (\<lambda>i. broken_world) password_opts two_token_pool 0)),
         snd (snd (attempt (\<lambda>i. broken_world) password_opts two_token_pool 0)))"
    by simp
  then have B: "SearchWithRetry plain_time (\<lambda>i. broken_world) password_opts 3 two_token_pool
     = (used_pool, forbidden_trace,
        Err (Wrapped ''search failed'' (Upstream ''500 Internal Server Error'')))"
    by (simp add: ba0)
  from inst fall
  obtain e where e: "snd (snd (attempt (\<lambda>i. forbidden_world) password_opts two_token_pool
                                 (Suc (Suc (Suc 0)) - 1))) = Err e"
    "SearchWithRetry plain_time (\<lambda>i. forbidden_world) password_opts (int (Suc (Suc (Suc 0)))) two_token_pool
       = (pool_at (\<lambda>i. forbidden_world) password_opts two_token_pool (Suc (Suc (Suc 0))),
          retry_trace (\<lambda>i. forbidden_world) password_opts two_token_pool (Suc (Suc (Suc 0))),
          Err (Wrapped ''max retries exceeded'' e))"
    by blast
  from e(1) have "e = forbidden_error" by (simp add: fa2)
  with e(2) have C: "SearchWithRetry plain_time (\<lambda>i. forbidden_world) password_opts 3 two_token_pool
     = (used_pool,
        forbidden_trace @ [Sleep 10] @ forbidden_trace @ [Sleep 20] @ forbidden_trace @ [Sleep 30],
        Err (Wrapped ''max retries exceeded'' forbidden_error))"
    by (simp add: fa0 fa1 fa2 f0 f1)
  from f0 f1 s2 have h: "SearchCode (recovering_worlds 0) password_opts two_token_pool
       = (used_pool, forbidden_trace, Err forbidden_error)"
     "SearchCode (recovering_worlds 1) password_opts used_pool
       = (used_pool, forbidden_trace, Err forbidden_error)"
     "SearchCode (recovering_worlds 2) password_opts used_pool
       = (used_pool, two_page_trace, Ok [secrets_item])"
    by (simp_all add: recovering_worlds_def)
  from inst h c
  have D: "SearchWithRetry plain_time recovering_worlds password_opts 3 two_token_pool
     = (used_pool, forbidden_trace @ [Sleep 10] @ forbidden_trace @ [Sleep 20] @ two_page_trace,
        Ok [secrets_item])"
    by blast
  from inst f0
  have "strings_Contains (Error plain_time forbidden_error) ''rate limit'' =
            (case snd (snd (GetClient forbidden_world two_token_pool)) of
               Err err \<Rightarrow> (\<exists>T. err = AllRateLimited T)
             | Ok client \<Rightarrow>
                 (\<exists>pg status msg. last forbidden_trace = SearchCodeCall client pg
                    \<and> search_code forbidden_world client (buildQuery password_opts) pg
                        = SearchErr status msg
                    \<and> (status = Some 403 \<or> strings_Contains msg ''rate limit''))
             | Panic \<Rightarrow> False)"
    by blast
  then have E: "strings_Contains (Error plain_time forbidden_error) ''rate limit''"
    using c by simp
  from rr0 rr1 rr2 D br0 B fr0 fr1 fr2 C f0 E h show ?thesis by (intro conjI)
qed
subsection \<open>The search service: the score of an item\<close>






subsection \<open>Persistence of new results\<close>

lemmas store_examples =
  empty_store_def store_one_row_def failing_insert_store_def
  secrets_item_def other_item_def upper_item_def lower_item_def comma_marshal_def
  ascii_ci_equal_def

lemmas store_eval =
  saveResults_def db_call_def same_key_def newResult_def key_eq_def strings_ToLower_def
  char_of_def bit_Suc_0_iff

lemma db_call_no_faults [simp]: "faults st = [] \<Longrightarrow> db_call st = (True, st)"
  by (simp add: db_call_def)

lemma same_key_newResult: "same_key eq rid c (newResult m rid c') \<longleftrightarrow> key_eq eq c' c"
  by (auto simp: same_key_def newResult_def key_eq_def)

lemma same_key_trans:
  assumes "transp eq" and "same_key eq rid c row" and "key_eq eq c c'"
  shows "same_key eq rid c' row"
  using assms unfolding same_key_def key_eq_def by (blast dest: transpD)

lemma first_of_each_key_distinct:
  "sorted_wrt (\<lambda>a b. \<not> key_eq eq a b) cs \<Longrightarrow> first_of_each_key eq cs = cs"
proof (induction cs)
  case Nil
  show ?case by simp
next
  case (Cons c cs)
  then have ih: "first_of_each_key eq cs = cs" and ne: "\<forall>c'\<in>set cs. \<not> key_eq eq c c'"
    by simp_all
  from ne have "filter (\<lambda>c'. \<not> key_eq eq c c') cs = cs"
    by (simp add: filter_id_conv)
  with ih show ?case by simp
qed

text \<open>With every key in the store, the loop inserts nothing.\<close>

lemma saveResults_loop_present:
  assumes "faults st = []"
    and "\<forall>c\<in>set cs. list_ex (same_key (collation st) rid c) (search_results st)"
  shows "saveResults_loop m rid cs n st = (n, st)"
  using assms by (induction cs arbitrary: n) simp_all

text \<open>
  What the loop inserts into a store that does not fail and whose equality of strings is
  reflexive and transitive: the first candidate of each key, when the store lacks the key.
\<close>

lemma saveResults_loop_inserts:
  assumes "faults st = []" and "reflp (collation st)" and "transp (collation st)"
  shows "saveResults_loop m rid cs n st =
           (n + length (filter (\<lambda>c. \<not> list_ex (same_key (collation st) rid c) (search_results st))
                          (first_of_each_key (collation st) cs)),
            st\<lparr>search_results := search_results st @ map (newResult m rid)
                  (filter (\<lambda>c. \<not> list_ex (same_key (collation st) rid c) (search_results st))
                     (first_of_each_key (collation st) cs))\<rparr>)"
  using assms
proof (induction cs arbitrary: n st)
  case Nil
  show ?case by simp
next
  case (Cons c cs)
  let ?eq = "collation st"
  let ?absent = "\<lambda>st c. \<not> list_ex (same_key (collation st) rid c) (search_results st)"
  show ?case
  proof (cases "list_ex (same_key ?eq rid c) (search_results st)")
    case True
    then obtain row where row: "row \<in> set (search_results st)" "same_key ?eq rid c row"
      by (auto simp: list_ex_iff)
    have "\<not> key_eq ?eq c c'" if "?absent st c'" for c'
    proof
      assume "key_eq ?eq c c'"
      from same_key_trans [OF Cons.prems(3) row(2) this] row(1) that show False
        by (auto simp: list_ex_iff)
    qed
    then have f: "filter (?absent st) (filter (\<lambda>c'. \<not> key_eq ?eq c c') (first_of_each_key ?eq cs))
        = filter (?absent st) (first_of_each_key ?eq cs)"
      by (auto simp: filter_filter intro: filter_cong)
    have step: "saveResults_loop m rid (c # cs) n st = saveResults_loop m rid cs n st"
      using True Cons.prems(1) by simp
    have first: "filter (?absent st) (first_of_each_key ?eq (c # cs))
        = filter (?absent st) (first_of_each_key ?eq cs)"
      using True f by simp
    show ?thesis
      unfolding step first by (rule Cons.IH [OF Cons.prems])
  next
    case False
    let ?st2 = "st\<lparr>search_results := search_results st @ [newResult m rid c]\<rparr>"
    have f2: "faults ?st2 = []" and c2: "collation ?st2 = ?eq"
      using Cons.prems(1) by simp_all
    have r2: "reflp (collation ?st2)" and t2: "transp (collation ?st2)"
      using Cons.prems(2,3) by simp_all
    have ab: "?absent ?st2 c' \<longleftrightarrow> ?absent st c' \<and> \<not> key_eq ?eq c c'" for c'
      by (simp add: same_key_newResult)
    have f: "filter (?absent ?st2) (first_of_each_key ?eq cs)
        = filter (?absent st) (filter (\<lambda>c'. \<not> key_eq ?eq c c') (first_of_each_key ?eq cs))"
      unfolding filter_filter by (rule filter_cong) (use ab in auto)
    have step: "saveResults_loop m rid (c # cs) n st = saveResults_loop m rid cs (n + 1) ?st2"
      using False Cons.prems(1) by simp
    have first: "filter (?absent st) (first_of_each_key ?eq (c # cs))
        = c # filter (?absent ?st2) (first_of_each_key ?eq cs)"
      using False f by simp
    have ih: "saveResults_loop m rid cs (n + 1) ?st2 =
           (n + 1 + length (filter (?absent ?st2) (first_of_each_key ?eq cs)),
            ?st2\<lparr>search_results := search_results ?st2 @ map (newResult m rid)
                  (filter (?absent ?st2) (first_of_each_key ?eq cs))\<rparr>)"
      using Cons.IH [OF f2 r2 t2, of "n + 1"] unfolding c2 .
    show ?thesis
      unfolding step first ih by simp
  qed
qed

text \<open>After the loop on a store that does not fail, the key of every candidate is in the store.\<close>

lemma saveResults_loop_covers:
  assumes "faults st = []" and "reflp (collation st)"
  shows "\<exists>rows. snd (saveResults_loop m rid cs n st) = st\<lparr>search_results := search_results st @ rows\<rparr>
           \<and> (\<forall>c\<in>set cs. list_ex (same_key (collation st) rid c) (search_results st @ rows))"
  using assms
proof (induction cs arbitrary: n st)
  case Nil
  show ?case by (rule exI [of _ "[]"]) simp
next
  case (Cons c cs)
  let ?eq = "collation st"
  show ?case
  proof (cases "list_ex (same_key ?eq rid c) (search_results st)")
    case True
    from Cons.IH [OF Cons.prems, of n] obtain rows where
      r: "snd (saveResults_loop m rid cs n st) = st\<lparr>search_results := search_results st @ rows\<rparr>"
         "\<forall>c\<in>set cs. list_ex (same_key ?eq rid c) (search_results st @ rows)"
      by blast
    have step: "saveResults_loop m rid (c # cs) n st = saveResults_loop m rid cs n st"
      using True Cons.prems(1) by simp
    have "\<forall>c'\<in>set (c # cs). list_ex (same_key ?eq rid c') (search_results st @ rows)"
      using True r(2) by simp
    with r(1) step show ?thesis by (intro exI [of _ rows]) simp
  next
    case False
    let ?st2 = "st\<lparr>search_results := search_results st @ [newResult m rid c]\<rparr>"
    have f2: "faults ?st2 = []" and r2: "reflp (collation ?st2)"
      using Cons.prems by simp_all
    from Cons.IH [OF f2 r2, of "n + 1"] obtain rows where
      r: "snd (saveResults_loop m rid cs (n + 1) ?st2)
            = ?st2\<lparr>search_results := search_results ?st2 @ rows\<rparr>"
         "\<forall>c\<in>set cs. list_ex (same_key (collation ?st2) rid c) (search_results ?st2 @ rows)"
      by blast
    have step: "saveResults_loop m rid (c # cs) n st = saveResults_loop m rid cs (n + 1) ?st2"
      using False Cons.prems(1) by simp
    have self: "same_key ?eq rid c (newResult m rid c)"
      using Cons.prems(2) by (simp add: same_key_newResult key_eq_def reflpD)
    have "\<forall>c'\<in>set (c # cs). list_ex (same_key ?eq rid c')
            (search_results st @ newResult m rid c # rows)"
      using r(2) self by simp
    with r(1) step show ?thesis
      by (intro exI [of _ "newResult m rid c # rows"]) simp
  qed
qed

text \<open>
  C5, as stated, fails, for two reasons. When the database refuses the insertion, the
  first call inserts nothing and returns 0 although the key of the candidate is absent,
  and a second call with the same candidate inserts it and returns 1. And the database
  compares the strings of the key under its collation: of two candidates whose paths
  differ in case only, both absent from the store, the first call inserts the first only
  and returns 1.
\<close>

theorem saveResults_idempotent_counterexample:
  "search_results failing_insert_store = []
   \<and> saveResults comma_marshal 1 [secrets_item] failing_insert_store = (0, empty_store)
   \<and> saveResults comma_marshal 1 [secrets_item] empty_store = (1, store_one_row)
   \<and> search_results empty_store = []
   \<and> (RepoFullName upper_item, FilePath upper_item) \<noteq> (RepoFullName lower_item, FilePath lower_item)
   \<and> saveResults comma_marshal 1 [upper_item, lower_item] empty_store
       = (1, empty_store\<lparr>search_results := [newResult comma_marshal 1 upper_item]\<rparr>)"
  by (simp add: store_examples store_eval)

text \<open>
  C5, amended. On a store whose operations all succeed (its equality of strings being
  reflexive and transitive, as the equality of a collation is), \<^verbatim>\<open>saveResults\<close> inserts
  exactly the candidates whose key (rule id, repository name and path, the strings compared
  as the database compares them) is absent from the store and is not the key of a
  candidate before them in the list, in the order of the list, and returns their number;
  when no two candidates have the same key, these are exactly the candidates whose key is
  absent from the store. Afterwards the key of every candidate is in the store, and a
  second call with the same candidates returns 0 and leaves the store as it is.
\<close>

theorem saveResults_idempotent:
  "faults st = [] \<and> reflp (collation st) \<and> transp (collation st)
     \<and> saveResults m rid cs st = (n1, st1) \<longrightarrow>
     (\<exists>ins. ins = filter (\<lambda>c. \<not> list_ex (same_key (collation st) rid c) (search_results st))
                    (first_of_each_key (collation st) cs)
        \<and> st1 = st\<lparr>search_results := search_results st @ map (newResult m rid) ins\<rparr>
        \<and> n1 = length ins
        \<and> (sorted_wrt (\<lambda>a b. \<not> key_eq (collation st) a b) cs \<longrightarrow>
             ins = filter (\<lambda>c. \<not> list_ex (same_key (collation st) rid c) (search_results st)) cs))
     \<and> (\<forall>c\<in>set cs. list_ex (same_key (collation st) rid c) (search_results st1))
     \<and> saveResults m rid cs st1 = (0, st1)"
proof
  assume a: "faults st = [] \<and> reflp (collation st) \<and> transp (collation st)
     \<and> saveResults m rid cs st = (n1, st1)"
  let ?ins = "filter (\<lambda>c. \<not> list_ex (same_key (collation st) rid c) (search_results st))
                (first_of_each_key (collation st) cs)"
  from a have f: "faults st = []" and r: "reflp (collation st)" and t: "transp (collation st)"
    and s: "saveResults_loop m rid cs 0 st = (n1, st1)"
    by (simp_all add: saveResults_def)
  from saveResults_loop_inserts [OF f r t, of m rid cs 0] s
  have st1: "st1 = st\<lparr>search_results := search_results st @ map (newResult m rid) ?ins\<rparr>"
    and n1: "n1 = length ?ins"
    by simp_all
  have d: "sorted_wrt (\<lambda>a b. \<not> key_eq (collation st) a b) cs \<longrightarrow>
      ?ins = filter (\<lambda>c. \<not> list_ex (same_key (collation st) rid c) (search_results st)) cs"
    by (simp add: first_of_each_key_distinct)
  from saveResults_loop_covers [OF f r, of m rid cs 0] s obtain rows where
    rows: "st1 = st\<lparr>search_results := search_results st @ rows\<rparr>"
      "\<forall>c\<in>set cs. list_ex (same_key (collation st) rid c) (search_results st @ rows)"
    by auto
  have cov: "\<forall>c\<in>set cs. list_ex (same_key (collation st) rid c) (search_results st1)"
    using rows by simp
  have f1: "faults st1 = []" and c1: "collation st1 = collation st"
    using f st1 by simp_all
  have again: "saveResults m rid cs st1 = (0, st1)"
    unfolding saveResults_def
    by (rule saveResults_loop_present [OF f1]) (use cov c1 in simp)
  have first: "\<exists>ins. ins = ?ins
        \<and> st1 = st\<lparr>search_results := search_results st @ map (newResult m rid) ins\<rparr>
        \<and> n1 = length ins
        \<and> (sorted_wrt (\<lambda>a b. \<not> key_eq (collation st) a b) cs \<longrightarrow>
             ins = filter (\<lambda>c. \<not> list_ex (same_key (collation st) rid c) (search_results st)) cs)"
    using st1 n1 d by blast
  from first cov again
  show "(\<exists>ins. ins = ?ins
        \<and> st1 = st\<lparr>search_results := search_results st @ map (newResult m rid) ins\<rparr>
        \<and> n1 = length ins
        \<and> (sorted_wrt (\<lambda>a b. \<not> key_eq (collation st) a b) cs \<longrightarrow>
             ins = filter (\<lambda>c. \<not> list_ex (same_key (collation st) rid c) (search_results st)) cs))
     \<and> (\<forall>c\<in>set cs. list_ex (same_key (collation st) rid c) (search_results st1))
     \<and> saveResults m rid cs st1 = (0, st1)"
    by (intro conjI)
qed

theorem saveResults_idempotent_witness:
  "faults store_one_row = []
   \<and> reflp (collation store_one_row) \<and> transp (collation store_one_row)
   \<and> saveResults comma_marshal 1 [secrets_item, upper_item, lower_item, other_item] store_one_row
       = (2, store_one_row\<lparr>search_results :=
               [newResult comma_marshal 1 secrets_item, newResult comma_marshal 1 upper_item,
                newResult comma_marshal 1 other_item]\<rparr>)
   \<and> filter (\<lambda>c. \<not> list_ex (same_key (collation store_one_row) 1 c) (search_results store_one_row))
        (first_of_each_key (collation store_one_row)
           [secrets_item, upper_item, lower_item, other_item])
       = [upper_item, other_item]
   \<and> list_all (\<lambda>c. list_ex (same_key (collation store_one_row) 1 c)
                     [newResult comma_marshal 1 secrets_item, newResult comma_marshal 1 upper_item,
                      newResult comma_marshal 1 other_item])
        [secrets_item, upper_item, lower_item, other_item]
   \<and> saveResults comma_marshal 1 [secrets_item, upper_item, lower_item, other_item]
        (store_one_row\<lparr>search_results :=
               [newResult comma_marshal 1 secrets_item, newResult comma_marshal 1 upper_item,
                newResult comma_marshal 1 other_item]\<rparr>)
       = (0, store_one_row\<lparr>search_results :=
               [newResult comma_marshal 1 secrets_item, newResult comma_marshal 1 upper_item,
                newResult comma_marshal 1 other_item]\<rparr>)"
proof -
  let ?cs = "[secrets_item, upper_item, lower_item, other_item]"
  let ?st1 = "store_one_row\<lparr>search_results :=
               [newResult comma_marshal 1 secrets_item, newResult comma_marshal 1 upper_item,
                newResult comma_marshal 1 other_item]\<rparr>"
  have h1: "faults store_one_row = []" by (simp add: store_examples)
  have c: "collation store_one_row = ascii_ci_equal" by (simp add: empty_store_def store_one_row_def)
  have h2: "reflp (collation store_one_row)"
    unfolding c by (rule reflpI) (simp add: ascii_ci_equal_def)
  have h3: "transp (collation store_one_row)"
    unfolding c by (rule transpI) (simp add: ascii_ci_equal_def)
  have h4: "saveResults comma_marshal 1 ?cs store_one_row = (2, ?st1)"
    by (simp add: store_examples store_eval)
  have e: "filter (\<lambda>c. \<not> list_ex (same_key (collation store_one_row) 1 c) (search_results store_one_row))
        (first_of_each_key (collation store_one_row) ?cs) = [upper_item, other_item]"
    by (simp add: store_examples store_eval)
  note inst = saveResults_idempotent [of store_one_row comma_marshal 1 ?cs 2 ?st1]
  from inst h1 h2 h3 h4
  have cov: "\<forall>c\<in>set ?cs. list_ex (same_key (collation store_one_row) 1 c) (search_results ?st1)"
    and again: "saveResults comma_marshal 1 ?cs ?st1 = (0, ?st1)"
    by blast+
  from cov have cov': "list_all (\<lambda>c. list_ex (same_key (collation store_one_row) 1 c)
                     [newResult comma_marshal 1 secrets_item, newResult comma_marshal 1 upper_item,
                      newResult comma_marshal 1 other_item]) ?cs"
    by (simp add: list_all_iff)
  from h1 h2 h3 h4 e cov' again show ?thesis by (intro conjI)
qed

subsection \<open>The scan of a rule: auxiliary facts\<close>

lemmas scan_examples =
  password_json_def example_unmarshal_def password_rule_def second_rule_def bad_exts_rule_def
  bad_keywords_rule_def forbidden_env_def working_env_def cycle_envs_def initial_system_def
  comma_marshal_def empty_store_def ascii_ci_equal_def

lemmas scan_eval =
  scan_def scanRule_def ParseKeywords_def ParseExcludeExts_def filterWhitelist_def
  saveResults_def recordScanHistory_def db_call_def same_key_def newResult_def

text \<open>Every search begins with its query, and the retry loop only adds to the trace.\<close>

lemma SearchCode_trace_head:
  assumes "SearchCode w opts p = (p1, tr, r)"
  shows "\<exists>t. tr = ExecQuery (buildQuery opts) # t"
proof -
  obtain p' trg g where g: "GetClient w p = (p', trg, g)"
    by (cases "GetClient w p") auto
  show ?thesis
  proof (cases g)
    case (Ok client)
    obtain tr1 r1 where l: "SearchCode_loop w client (buildQuery opts) (Keywords opts) 1 []
        (ExecQuery (buildQuery opts) # trg) = (tr1, r1)"
      by (cases "SearchCode_loop w client (buildQuery opts) (Keywords opts) 1 []
                   (ExecQuery (buildQuery opts) # trg)") auto
    from SearchCode_loop_trace [OF l] obtain trp where
      "tr1 = (ExecQuery (buildQuery opts) # trg) @ trp" by blast
    with assms g Ok l show ?thesis
      by (auto simp: SearchCode_def Let_def)
  next
    case (Err err)
    with assms g show ?thesis by (auto simp: SearchCode_def Let_def)
  next
    case Panic
    with assms g show ?thesis by (auto simp: SearchCode_def Let_def)
  qed
qed

lemma SearchWithRetry_loop_extends:
  "SearchWithRetry_loop fmt ws opts maxRetries i lastErr p tr = (p', tr', r) \<Longrightarrow> \<exists>t. tr' = tr @ t"
proof (induction fmt ws opts maxRetries i lastErr p tr rule: SearchWithRetry_loop.induct)
  case (1 fmt ws opts maxRetries i lastErr p tr)
  show ?case
  proof (cases "int i < maxRetries")
    case False
    with "1.prems" show ?thesis
      by (subst (asm) SearchWithRetry_loop.simps) auto
  next
    case True
    obtain p1 tr1 r1 where sc: "SearchCode (ws i) opts p = (p1, tr1, r1)"
      by (cases "SearchCode (ws i) opts p") auto
    show ?thesis
    proof (cases r1)
      case (Ok x)
      with "1.prems" True sc show ?thesis by (subst (asm) SearchWithRetry_loop.simps) auto
    next
      case Panic
      with "1.prems" True sc show ?thesis by (subst (asm) SearchWithRetry_loop.simps) auto
    next
      case (Err e)
      show ?thesis
      proof (cases "strings_Contains (Error fmt e) ''rate limit''")
        case c: True
        from "1.prems" True sc Err c
        have "SearchWithRetry_loop fmt ws opts maxRetries (i + 1) (Some e) p1
                (tr @ tr1 @ [Sleep ((i + 1) * 10)]) = (p', tr', r)"
          by (subst (asm) SearchWithRetry_loop.simps) simp
        from "1.IH" [OF True sc [symmetric] _ _ c this] Err
        obtain t where "tr' = (tr @ tr1 @ [Sleep ((i + 1) * 10)]) @ t" by auto
        then show ?thesis by simp
      next
        case c: False
        from "1.prems" True sc Err c show ?thesis
          by (subst (asm) SearchWithRetry_loop.simps) auto
      qed
    qed
  qed
qed

lemma SearchWithRetry_loop_head:
  assumes "int i < maxRetries"
    and "SearchWithRetry_loop fmt ws opts maxRetries i lastErr p tr = (p', tr', r)"
  shows "\<exists>t. tr' = tr @ ExecQuery (buildQuery opts) # t"
proof -
  obtain p1 tr1 r1 where sc: "SearchCode (ws i) opts p = (p1, tr1, r1)"
    by (cases "SearchCode (ws i) opts p") auto
  from SearchCode_trace_head [OF sc] obtain t1 where t1: "tr1 = ExecQuery (buildQuery opts) # t1"
    by blast
  show ?thesis
  proof (cases r1)
    case (Ok x)
    with assms sc t1 show ?thesis by (subst (asm) SearchWithRetry_loop.simps) auto
  next
    case Panic
    with assms sc t1 show ?thesis by (subst (asm) SearchWithRetry_loop.simps) auto
  next
    case (Err e)
    show ?thesis
    proof (cases "strings_Contains (Error fmt e) ''rate limit''")
      case True
      from assms sc Err True
      have "SearchWithRetry_loop fmt ws opts maxRetries (i + 1) (Some e) p1
              (tr @ tr1 @ [Sleep ((i + 1) * 10)]) = (p', tr', r)"
        by (subst (asm) SearchWithRetry_loop.simps) simp
      from SearchWithRetry_loop_extends [OF this]
      obtain t where "tr' = (tr @ tr1 @ [Sleep ((i + 1) * 10)]) @ t" by blast
      with t1 show ?thesis by simp
    next
      case False
      from assms sc Err False t1 show ?thesis
        by (subst (asm) SearchWithRetry_loop.simps) auto
    qed
  qed
qed

text \<open>
  No error that \<^verbatim>\<open>SearchWithRetry\<close> returns has the message \<^verbatim>\<open>rate limit exceeded\<close>: an
  error that is returned as it came does not contain \<^verbatim>\<open>rate limit\<close>, and the others begin
  with \<^verbatim>\<open>max retries exceeded\<close>.
\<close>

lemma SearchWithRetry_loop_never_exact:
  assumes "SearchWithRetry_loop fmt ws opts maxRetries i lastErr p tr = (p', tr', Err err)"
  shows "Error fmt err \<noteq> ''rate limit exceeded''"
  using assms
proof (induction fmt ws opts maxRetries i lastErr p tr rule: SearchWithRetry_loop.induct)
  case (1 fmt ws opts maxRetries i lastErr p tr)
  show ?case
  proof (cases "int i < maxRetries")
    case False
    with "1.prems" show ?thesis
      by (subst (asm) SearchWithRetry_loop.simps) (auto split: option.splits)
  next
    case True
    obtain p1 tr1 r where sc: "SearchCode (ws i) opts p = (p1, tr1, r)"
      by (cases "SearchCode (ws i) opts p") auto
    show ?thesis
    proof (cases r)
      case (Ok x)
      with "1.prems" True sc show ?thesis by (subst (asm) SearchWithRetry_loop.simps) simp
    next
      case Panic
      with "1.prems" True sc show ?thesis by (subst (asm) SearchWithRetry_loop.simps) simp
    next
      case (Err e)
      show ?thesis
      proof (cases "strings_Contains (Error fmt e) ''rate limit''")
        case c: True
        from "1.prems" True sc Err c
        have "SearchWithRetry_loop fmt ws opts maxRetries (i + 1) (Some e) p1
                (tr @ tr1 @ [Sleep ((i + 1) * 10)]) = (p', tr', Err err)"
          by (subst (asm) SearchWithRetry_loop.simps) simp
        from "1.IH" [OF True sc [symmetric] _ _ c this] Err show ?thesis by simp
      next
        case c: False
        from "1.prems" True sc Err c have "err = e"
          by (subst (asm) SearchWithRetry_loop.simps) simp
        with c contains_rate_limit_exceeded [of "[]"] show ?thesis by auto
      qed
    qed
  qed
qed

lemma scan_histories_db_call [simp]: "scan_histories (snd (db_call st)) = scan_histories st"
  by (simp add: db_call_def split: list.splits)

lemma scan_histories_saveResults_loop:
  "scan_histories (snd (saveResults_loop m rid cs n st)) = scan_histories st"
proof (induction cs arbitrary: n st)
  case Nil
  show ?case by simp
next
  case (Cons c cs)
  obtain ok1 st1 where d1: "db_call st = (ok1, st1)" by (cases "db_call st")
  obtain ok2 st2 where d2: "db_call st1 = (ok2, st2)" by (cases "db_call st1")
  have h1: "scan_histories st1 = scan_histories st"
    using scan_histories_db_call [of st] d1 by simp
  have h2: "scan_histories st2 = scan_histories st"
    using scan_histories_db_call [of st1] d2 h1 by simp
  show ?case
    using d1 d2 h1 h2 Cons.IH by simp
qed

lemma scan_histories_filterWhitelist:
  "scan_histories (snd (filterWhitelist results st)) = scan_histories st"
proof -
  obtain ok st1 where d: "db_call st = (ok, st1)" by (cases "db_call st")
  have h: "scan_histories st1 = scan_histories st"
    using scan_histories_db_call [of st] d by simp
  show ?thesis
    by (simp add: filterWhitelist_def d h)
qed

lemma scan_histories_recordScanHistory:
  "\<exists>hs. scan_histories (recordScanHistory rid rc nr tu status msg d st) = scan_histories st @ hs
         \<and> list_all (\<lambda>h. hist_Status h = status) hs"
proof -
  obtain ok st1 where d: "db_call st = (ok, st1)" by (cases "db_call st")
  have h: "scan_histories st1 = scan_histories st"
    using scan_histories_db_call [of st] d by simp
  show ?thesis
  proof (cases ok)
    case True
    show ?thesis
      by (rule exI [of _ "[\<lparr>hist_RuleID = rid, hist_ResultsCount = rc, hist_NewResults = nr,
              hist_TokenUsed = tu, hist_Status = status, hist_ErrorMessage = msg,
              hist_Duration = d\<rparr>]"])
         (simp add: recordScanHistory_def d True h)
  next
    case False
    show ?thesis
      by (rule exI [of _ "[]"]) (simp add: recordScanHistory_def d False h)
  qed
qed

text \<open>
  Hence the status \<^verbatim>\<open>rate_limited\<close> is never recorded by \<^verbatim>\<open>scanRule\<close>: the rows it adds to
  the scan history have the status \<^verbatim>\<open>failed\<close> or \<^verbatim>\<open>success\<close>.
\<close>

lemma scanRule_status_failed_or_success:
  assumes "scanRule e rule s = Some s1"
  shows "\<exists>hs. scan_histories (sys_db s1) = scan_histories (sys_db s) @ hs
           \<and> list_all (\<lambda>h. hist_Status h = ''failed'' \<or> hist_Status h = ''success'') hs"
proof (cases "ParseKeywords (env_unmarshal e) (rule_Keywords rule)")
  case (Inl err)
  from scan_histories_recordScanHistory
    [of "rule_ID rule" 0 0 "[]" "''failed''" "Error (env_fmt_time e) err" 0 "sys_db s"]
  obtain hs where "scan_histories (recordScanHistory (rule_ID rule) 0 0 [] ''failed''
        (Error (env_fmt_time e) err) 0 (sys_db s)) = scan_histories (sys_db s) @ hs"
    "list_all (\<lambda>h. hist_Status h = ''failed'') hs" by blast
  moreover have "s1 = s\<lparr>sys_db := recordScanHistory (rule_ID rule) 0 0 [] ''failed''
        (Error (env_fmt_time e) err) 0 (sys_db s)\<rparr>"
    using assms Inl by (simp add: scanRule_def)
  ultimately show ?thesis
    by (intro exI [of _ hs]) (auto simp: list_all_iff)
next
  case (Inr kws)
  let ?opts = "\<lparr>Keywords = kws, MatchType = rule_MatchType rule,
      ExcludeExts = (case ParseExcludeExts (env_unmarshal e) (rule_ExcludeExts rule) of
                       Inl err \<Rightarrow> [] | Inr exts \<Rightarrow> exts),
      Language = [], Sort = ''indexed'', Order = ''desc''\<rparr>"
  obtain p1 tr r where sw: "SearchWithRetry (env_fmt_time e) (env_worlds e) ?opts 3 (sys_pool s) = (p1, tr, r)"
    by (cases "SearchWithRetry (env_fmt_time e) (env_worlds e) ?opts 3 (sys_pool s)") auto
  show ?thesis
  proof (cases r)
    case Panic
    with assms Inr sw show ?thesis by (simp add: scanRule_def Let_def)
  next
    case (Err err)
    from SearchWithRetry_loop_never_exact [OF sw [unfolded SearchWithRetry_def Err]]
    have ne: "Error (env_fmt_time e) err \<noteq> ''rate limit exceeded''" .
    from scan_histories_recordScanHistory
      [of "rule_ID rule" 0 0 "[]" "''failed''" "Error (env_fmt_time e) err" "env_duration e" "sys_db s"]
    obtain hs where hs: "scan_histories (recordScanHistory (rule_ID rule) 0 0 [] ''failed''
          (Error (env_fmt_time e) err) (env_duration e) (sys_db s)) = scan_histories (sys_db s) @ hs"
      "list_all (\<lambda>h. hist_Status h = ''failed'') hs" by blast
    have "sys_db s1 = recordScanHistory (rule_ID rule) 0 0 [] ''failed''
          (Error (env_fmt_time e) err) (env_duration e) (sys_db s)"
      using assms Inr sw Err ne by (auto simp: scanRule_def Let_def)
    with hs show ?thesis
      by (intro exI [of _ hs]) (auto simp: list_all_iff)
  next
    case (Ok results)
    obtain filtered st1 where fw: "filterWhitelist results (sys_db s) = (filtered, st1)"
      by (cases "filterWhitelist results (sys_db s)")
    obtain n st2 where sv: "saveResults (env_marshal e) (rule_ID rule) filtered st1 = (n, st2)"
      by (cases "saveResults (env_marshal e) (rule_ID rule) filtered st1")
    have h1: "scan_histories st1 = scan_histories (sys_db s)"
      using scan_histories_filterWhitelist [of results "sys_db s"] fw by simp
    have h2: "scan_histories st2 = scan_histories (sys_db s)"
      using scan_histories_saveResults_loop [of "env_marshal e" "rule_ID rule" filtered 0 st1] sv h1
      by (simp add: saveResults_def)
    from scan_histories_recordScanHistory
      [of "rule_ID rule" "int (length filtered)" "int n" "[]" "''success''" "[]" "env_duration e" st2]
    obtain hs where hs: "scan_histories (recordScanHistory (rule_ID rule) (int (length filtered)) (int n)
          [] ''success'' [] (env_duration e) st2) = scan_histories st2 @ hs"
      "list_all (\<lambda>h. hist_Status h = ''success'') hs" by blast
    have "sys_db s1 = recordScanHistory (rule_ID rule) (int (length filtered)) (int n)
          [] ''success'' [] (env_duration e) st2"
      using assms Inr sw Ok fw sv by (auto simp: scanRule_def Let_def)
    with hs h2 show ?thesis
      by (intro exI [of _ hs]) (auto simp: list_all_iff)
  qed
qed

subsection \<open>The scan of a rule: a rate limit\<close>

text \<open>
  C8, on the code. In a cycle over two rules, every search attempt of the first rule meets
  status 403, a rate limit for \<^verbatim>\<open>SearchCode\<close> and \<^verbatim>\<open>SearchWithRetry\<close>. The scan history then
  holds for that rule the status \<^verbatim>\<open>failed\<close>, not \<^verbatim>\<open>rate_limited\<close>, with the message of the
  wrapped error; the second rule still runs and succeeds.
\<close>

theorem scan_rate_limit_recorded_as_failed:
  "map_option (\<lambda>s. map (\<lambda>h. (hist_RuleID h, hist_Status h, hist_ErrorMessage h))
                  (scan_histories (sys_db s)))
     (scan cycle_envs initial_system)
   = Some [(1, ''failed'', ''max retries exceeded: rate limit exceeded: 403 Forbidden''),
           (2, ''success'', [])]"
  by (simp add: scan_examples scan_eval retry_examples search_examples search_eval
      pool_examples pool_eval)

subsection \<open>The scan of a rule: excluded extensions that are not JSON\<close>

text \<open>Once the keywords parse, \<^verbatim>\<open>scanRule\<close> searches: whenever it returns, the trace has grown by a search.\<close>

lemma scanRule_searches:
  assumes "env_unmarshal e (rule_Keywords rule) = Inr kws"
    and "scanRule e rule s = Some s1"
  shows "\<exists>t. sys_events s1 = sys_events s @
           ExecQuery (buildQuery \<lparr>Keywords = kws, MatchType = rule_MatchType rule,
              ExcludeExts = (case ParseExcludeExts (env_unmarshal e) (rule_ExcludeExts rule) of
                               Inl err \<Rightarrow> [] | Inr exts \<Rightarrow> exts),
              Language = [], Sort = ''indexed'', Order = ''desc''\<rparr>) # t"
proof -
  let ?opts = "\<lparr>Keywords = kws, MatchType = rule_MatchType rule,
      ExcludeExts = (case ParseExcludeExts (env_unmarshal e) (rule_ExcludeExts rule) of
                       Inl err \<Rightarrow> [] | Inr exts \<Rightarrow> exts),
      Language = [], Sort = ''indexed'', Order = ''desc''\<rparr>"
  obtain p1 tr res where sw:
    "SearchWithRetry (env_fmt_time e) (env_worlds e) ?opts 3 (sys_pool s) = (p1, tr, res)"
    by (cases "SearchWithRetry (env_fmt_time e) (env_worlds e) ?opts 3 (sys_pool s)") auto
  from SearchWithRetry_loop_head [OF _ sw [unfolded SearchWithRetry_def]]
  obtain t where t: "tr = ExecQuery (buildQuery ?opts) # t" by auto
  have "sys_events s1 = sys_events s @ tr"
    using assms sw
    by (cases res) (auto simp: scanRule_def ParseKeywords_def Let_def split: prod.splits)
  with t show ?thesis by blast
qed

text \<open>
  C9, as stated, fails. For a rule whose excluded extensions are not JSON, the search is
  executed all the same, here over two pages, and the scan history records a success.
\<close>

theorem scanRule_invalid_extensions_counterexample:
  "ParseExcludeExts (env_unmarshal working_env) (rule_ExcludeExts bad_exts_rule)
     = Inl (Upstream ''invalid character'')
   \<and> map_option sys_events (scanRule working_env bad_exts_rule initial_system)
     = Some [ExecQuery ''password'', RateLimitGet 0, SearchCodeCall 0 1, Sleep 2, SearchCodeCall 0 2]
   \<and> map_option (\<lambda>s. map hist_Status (scan_histories (sys_db s)))
        (scanRule working_env bad_exts_rule initial_system)
     = Some [''success'']"
  by (simp add: scan_examples scan_eval retry_examples search_examples search_eval
      pool_examples pool_eval)

text \<open>
  C9, amended. When the keywords of a rule parse and its excluded extensions do not, the
  rule is not skipped: it is scanned as a rule without excluded extensions. \<^verbatim>\<open>scanRule\<close>
  does what it does for the rule with the empty extensions field, and whenever it returns,
  a search with the query built from the keywords and no exclusion has been executed. A
  rule is skipped for the cycle, with a scan history row of status \<^verbatim>\<open>failed\<close> that carries
  the parse error and with no search executed for it, when its keywords do not parse; and
  only then: a rule whose keywords parse is searched for whatever its extensions field
  holds, so when \<^verbatim>\<open>scanRule\<close> returns and no request and no search has been added to the
  trace, the keywords did not parse.
\<close>

theorem scanRule_invalid_extensions:
  "(env_unmarshal e (rule_Keywords rule) = Inr kws \<and> rule_ExcludeExts rule \<noteq> []
      \<and> env_unmarshal e (rule_ExcludeExts rule) = Inl msg
    \<longrightarrow> scanRule e rule s = scanRule e (rule\<lparr>rule_ExcludeExts := []\<rparr>) s
        \<and> (\<forall>s1. scanRule e rule s = Some s1 \<longrightarrow>
             (\<exists>t. sys_events s1 = sys_events s @
                ExecQuery (buildQuery \<lparr>Keywords = kws, MatchType = rule_MatchType rule,
                                       ExcludeExts = [], Language = [],
                                       Sort = ''indexed'', Order = ''desc''\<rparr>) # t)))
   \<and> (env_unmarshal e' (rule_Keywords rule') = Inl msg'
    \<longrightarrow> scanRule e' rule' s'
          = Some (s'\<lparr>sys_db := recordScanHistory (rule_ID rule') 0 0 [] ''failed'' msg' 0 (sys_db s')\<rparr>)
        \<and> map_option sys_events (scanRule e' rule' s') = Some (sys_events s')
        \<and> map_option sys_pool (scanRule e' rule' s') = Some (sys_pool s'))
   \<and> (env_unmarshal e2 (rule_Keywords rule2) = Inr kws2 \<and> scanRule e2 rule2 s2 = Some s3
    \<longrightarrow> (\<exists>q t. sys_events s3 = sys_events s2 @ ExecQuery q # t))
   \<and> (scanRule e4 rule4 s4 = Some s5 \<and> sys_events s5 = sys_events s4
    \<longrightarrow> (\<exists>msg4. env_unmarshal e4 (rule_Keywords rule4) = Inl msg4))"
proof (intro conjI impI allI)
  assume a: "env_unmarshal e (rule_Keywords rule) = Inr kws \<and> rule_ExcludeExts rule \<noteq> []
      \<and> env_unmarshal e (rule_ExcludeExts rule) = Inl msg"
  then show "scanRule e rule s = scanRule e (rule\<lparr>rule_ExcludeExts := []\<rparr>) s"
    by (simp add: scanRule_def ParseKeywords_def ParseExcludeExts_def)
  fix s1
  assume r: "scanRule e rule s = Some s1"
  from a have x: "(case ParseExcludeExts (env_unmarshal e) (rule_ExcludeExts rule) of
                     Inl err \<Rightarrow> [] | Inr exts \<Rightarrow> exts) = []"
    by (simp add: ParseExcludeExts_def)
  from scanRule_searches [of e rule kws s s1] a r
  show "\<exists>t. sys_events s1 = sys_events s @
           ExecQuery (buildQuery \<lparr>Keywords = kws, MatchType = rule_MatchType rule,
              ExcludeExts = [], Language = [], Sort = ''indexed'', Order = ''desc''\<rparr>) # t"
    unfolding x by blast
next
  assume b: "env_unmarshal e' (rule_Keywords rule') = Inl msg'"
  then show r: "scanRule e' rule' s'
          = Some (s'\<lparr>sys_db := recordScanHistory (rule_ID rule') 0 0 [] ''failed'' msg' 0 (sys_db s')\<rparr>)"
    by (simp add: scanRule_def ParseKeywords_def)
  show "map_option sys_events (scanRule e' rule' s') = Some (sys_events s')"
    and "map_option sys_pool (scanRule e' rule' s') = Some (sys_pool s')"
    unfolding r by simp_all
next
  assume "env_unmarshal e2 (rule_Keywords rule2) = Inr kws2 \<and> scanRule e2 rule2 s2 = Some s3"
  then show "\<exists>q t. sys_events s3 = sys_events s2 @ ExecQuery q # t"
    using scanRule_searches [of e2 rule2 kws2 s2 s3] by blast
next
  assume c: "scanRule e4 rule4 s4 = Some s5 \<and> sys_events s5 = sys_events s4"
  show "\<exists>msg4. env_unmarshal e4 (rule_Keywords rule4) = Inl msg4"
  proof (cases "env_unmarshal e4 (rule_Keywords rule4)")
    case (Inl m)
    then show ?thesis by blast
  next
    case (Inr kws4)
    from scanRule_searches [of e4 rule4 kws4 s4 s5] Inr c show ?thesis by auto
  qed
qed

theorem scanRule_invalid_extensions_witness:
  "env_unmarshal working_env (rule_Keywords bad_exts_rule) = Inr [''password'']
   \<and> rule_ExcludeExts bad_exts_rule \<noteq> []
   \<and> env_unmarshal working_env (rule_ExcludeExts bad_exts_rule) = Inl ''invalid character''
   \<and> scanRule working_env bad_exts_rule initial_system
       = scanRule working_env (bad_exts_rule\<lparr>rule_ExcludeExts := []\<rparr>) initial_system
   \<and> scanRule working_env bad_exts_rule initial_system
       = Some (the (scanRule working_env bad_exts_rule initial_system))
   \<and> (\<exists>t. sys_events (the (scanRule working_env bad_exts_rule initial_system))
            = sys_events initial_system @ ExecQuery ''password'' # t)
   \<and> (\<exists>q t. sys_events (the (scanRule working_env bad_exts_rule initial_system))
            = sys_events initial_system @ ExecQuery q # t)
   \<and> env_unmarshal working_env (rule_Keywords bad_keywords_rule) = Inl ''invalid character''
   \<and> scanRule working_env bad_keywords_rule initial_system
       = Some (initial_system\<lparr>sys_db := recordScanHistory (rule_ID bad_keywords_rule) 0 0 [] ''failed''
                                          ''invalid character'' 0 (sys_db initial_system)\<rparr>)
   \<and> map_option sys_events (scanRule working_env bad_keywords_rule initial_system)
       = Some (sys_events initial_system)
   \<and> sys_events (the (scanRule working_env bad_keywords_rule initial_system))
       = sys_events initial_system
   \<and> (\<exists>msg4. env_unmarshal working_env (rule_Keywords bad_keywords_rule) = Inl msg4)"
proof -
  have h1: "env_unmarshal working_env (rule_Keywords bad_exts_rule) = Inr [''password'']"
    and h2: "rule_ExcludeExts bad_exts_rule \<noteq> []"
    and h3: "env_unmarshal working_env (rule_ExcludeExts bad_exts_rule) = Inl ''invalid character''"
    and h4: "env_unmarshal working_env (rule_Keywords bad_keywords_rule) = Inl ''invalid character''"
    by (simp_all add: scan_examples)
  have some: "scanRule working_env bad_exts_rule initial_system
       = Some (the (scanRule working_env bad_exts_rule initial_system))"
    by (simp add: scan_examples scan_eval retry_examples search_examples search_eval
        pool_examples pool_eval)
  have some': "scanRule working_env bad_keywords_rule initial_system
       = Some (the (scanRule working_env bad_keywords_rule initial_system))"
    using h4 by (simp add: scanRule_def ParseKeywords_def)
  have ev: "sys_events (the (scanRule working_env bad_keywords_rule initial_system))
       = sys_events initial_system"
    using h4 by (simp add: scanRule_def ParseKeywords_def)
  have q: "buildQuery \<lparr>Keywords = [''password''], MatchType = rule_MatchType bad_exts_rule,
              ExcludeExts = [], Language = [], Sort = ''indexed'', Order = ''desc''\<rparr> = ''password''"
    by (simp add: buildQuery_def scan_examples)
  note inst = scanRule_invalid_extensions
    [where e = working_env and rule = bad_exts_rule and kws = "[''password'']"
       and msg = "''invalid character''" and s = initial_system
       and e' = working_env and rule' = bad_keywords_rule and msg' = "''invalid character''"
       and s' = initial_system
       and ?e2.0 = working_env and ?rule2.0 = bad_exts_rule and ?kws2.0 = "[''password'']"
       and ?s2.0 = initial_system
       and ?s3.0 = "the (scanRule working_env bad_exts_rule initial_system)"
       and ?e4.0 = working_env and ?rule4.0 = bad_keywords_rule and ?s4.0 = initial_system
       and ?s5.0 = "the (scanRule working_env bad_keywords_rule initial_system)"]
  from inst h1 h2 h3
  have c1: "scanRule working_env bad_exts_rule initial_system
       = scanRule working_env (bad_exts_rule\<lparr>rule_ExcludeExts := []\<rparr>) initial_system"
    by blast
  from inst h1 h2 h3 some
  have "\<exists>t. sys_events (the (scanRule working_env bad_exts_rule initial_system))
            = sys_events initial_system @
              ExecQuery (buildQuery \<lparr>Keywords = [''password''], MatchType = rule_MatchType bad_exts_rule,
                ExcludeExts = [], Language = [], Sort = ''indexed'', Order = ''desc''\<rparr>) # t"
    by blast
  then have c2: "\<exists>t. sys_events (the (scanRule working_env bad_exts_rule initial_system))
            = sys_events initial_system @ ExecQuery ''password'' # t"
    unfolding q .
  from inst h4
  have c3: "scanRule working_env bad_keywords_rule initial_system
       = Some (initial_system\<lparr>sys_db := recordScanHistory (rule_ID bad_keywords_rule) 0 0 [] ''failed''
                                          ''invalid character'' 0 (sys_db initial_system)\<rparr>)"
    and c4: "map_option sys_events (scanRule working_env bad_keywords_rule initial_system)
       = Some (sys_events initial_system)"
    by blast+
  from inst h1 some
  have c5: "\<exists>q t. sys_events (the (scanRule working_env bad_exts_rule initial_system))
            = sys_events initial_system @ ExecQuery q # t"
    by blast
  from inst some' ev
  have c6: "\<exists>msg4. env_unmarshal working_env (rule_Keywords bad_keywords_rule) = Inl msg4"
    by blast
  from h1 h2 h3 c1 some c2 c5 h4 c3 c4 ev c6 show ?thesis by (intro conjI)
qed

subsection \<open>Query building\<close>

text \<open>
  C7. \<^verbatim>\<open>buildQuery\<close> on the keywords \<^verbatim>\<open>password\<close>, \<^verbatim>\<open>api_key\<close> and the excluded extension
  \<^verbatim>\<open>md\<close> gives, in precise mode, the two keywords in double quotes (character \<open>0x22\<close>)
  separated by a space and followed by \<^verbatim>\<open> -extension:md\<close>, and in fuzzy mode the same without
  the quotes. In every mode the query is the one built from the non-empty keywords alone:
  empty keywords are skipped.
\<close>

theorem buildQuery_example_and_empty_keywords:
  "buildQuery \<lparr>Keywords = [''password'', ''api_key''], MatchType = ''precise'',
               ExcludeExts = [''md''], Language = [], Sort = srt, Order = ord\<rparr>
     = [CHR 0x22] @ ''password'' @ [CHR 0x22] @ '' '' @ [CHR 0x22] @ ''api_key'' @ [CHR 0x22]
         @ '' -extension:md''
   \<and> buildQuery \<lparr>Keywords = [''password'', ''api_key''], MatchType = ''fuzzy'',
                 ExcludeExts = [''md''], Language = [], Sort = srt, Order = ord\<rparr>
     = ''password api_key -extension:md''
   \<and> buildQuery (opts\<lparr>Keywords := filter (\<lambda>keyword. keyword \<noteq> []) (Keywords opts)\<rparr>) = buildQuery opts
   \<and> buildQuery (opts\<lparr>Keywords := [] # Keywords opts\<rparr>) = buildQuery opts"
  by (simp add: buildQuery_def strings_TrimPrefix_def Let_def)

end
